theory Spec2Isabelle
  imports Complex_Main "HOL-Library.AList" "HOL-Library.Multiset" "HOL-Library.Sublist"
begin

section \<open>GalacticScribe: a shallow embedding of \<^verbatim>\<open>GalacticScribe.py\<close>\<close>

subsection \<open>Python strings\<close>

text \<open>
  A Python \<^verbatim>\<open>str\<close> is a sequence of Unicode code points and \<^verbatim>\<open>len\<close> counts code
  points; a HOL \<^typ>\<open>char\<close> is a byte. A string of the program is therefore a list of code
  points, each a natural number. \<open>py\<close> turns an ASCII literal into such a list.
\<close>

type_synonym pystr = "nat list"

definition py :: "string \<Rightarrow> pystr" where
  "py s = map of_char s"

text \<open>
  \<^verbatim>\<open>str.isspace\<close> of one code point: the characters CPython classifies as whitespace
  (tab to carriage return, the four separators FS, GS, RS, US, space, NEL, no-break space
  and the Unicode space separators). \<^verbatim>\<open>str.strip()\<close> drops them from both ends.
\<close>

definition isspace :: "nat \<Rightarrow> bool" where
  "isspace c \<longleftrightarrow>
     (9 \<le> c \<and> c \<le> 13) \<or> (28 \<le> c \<and> c \<le> 32) \<or> c = 133 \<or> c = 160 \<or> c = 5760 \<or>
     (8192 \<le> c \<and> c \<le> 8202) \<or> c = 8232 \<or> c = 8233 \<or> c = 8239 \<or> c = 8287 \<or> c = 12288"

definition strip :: "pystr \<Rightarrow> pystr" where
  "strip s = rev (dropWhile isspace (rev (dropWhile isspace s)))"

text \<open>
  The exceptions of a run: an exception raised by the outside world, with its message;
  tenacity's \<^verbatim>\<open>RetryError\<close> around the last exception of a retried call; and the two
  that the program's own expressions can raise, \<^verbatim>\<open>IndexError\<close> (\<^verbatim>\<open>pop\<close> from an empty
  list) and \<^verbatim>\<open>TypeError\<close> (\<^verbatim>\<open>len\<close> of \<^verbatim>\<open>None\<close>).
\<close>

datatype exn = Error pystr | RetryError exn | IndexError | TypeError

subsection \<open>\<^verbatim>\<open>sanitize_title\<close> (lines 45-46)\<close>

text \<open>
  \<^verbatim>\<open>re.sub(r'[<>:"/\\|?*]', '_', title)\<close>: every code point of the character class
  \<^verbatim>\<open>< > : " / \ | ? *\<close> (60, 62, 58, 34, 47, 92, 124, 63, 42) is replaced by the
  underscore (95); every other code point is kept.
\<close>

definition unsafe_chars :: "nat list" where
  "unsafe_chars = [60, 62, 58, 34, 47, 92, 124, 63, 42]"

definition sanitize_title :: "pystr \<Rightarrow> pystr" where
  "sanitize_title title = map (\<lambda>c. if c \<in> set unsafe_chars then 95 else c) title"

subsection \<open>The parsed markup that \<^verbatim>\<open>validate_story\<close> inspects (lines 48-59)\<close>

text \<open>
  \<^verbatim>\<open>BeautifulSoup(html_content, 'html.parser')\<close> is a library call: the parser is a
  parameter \<open>parser\<close> of the model, and its result is the tree the program walks, a
  forest of text nodes and elements (tag name, children). \<open>tag_text\<close> is \<^verbatim>\<open>tag.text\<close>, the
  concatenation of all text below a node in document order; \<open>descendants\<close> lists the
  elements of a tree in document order, which is what \<^verbatim>\<open>soup.find_all\<close> ranges over.
\<close>

datatype node = Text pystr | Element pystr "node list"

type_synonym soup = "node list"

fun tag_text :: "node \<Rightarrow> pystr" where
  "tag_text (Text s) = s"
| "tag_text (Element nm children) = concat (map tag_text children)"

fun descendants :: "node \<Rightarrow> node list" where
  "descendants (Text s) = []"
| "descendants (Element nm children) = Element nm children # concat (map descendants children)"

fun tag_name :: "node \<Rightarrow> pystr" where
  "tag_name (Text s) = []"
| "tag_name (Element nm children) = nm"

definition find_all :: "soup \<Rightarrow> (node \<Rightarrow> bool) \<Rightarrow> node list" where
  "find_all sp pred = filter pred (concat (map descendants sp))"

text \<open>The tag names \<^verbatim>\<open>['p', 'h1', 'h2', 'h3', 'h4', 'h5', 'h6']\<close>.\<close>

definition structural_tags :: "pystr list" where
  "structural_tags = [py ''p'', py ''h1'', py ''h2'', py ''h3'', py ''h4'', py ''h5'', py ''h6'']"

text \<open>
  The predicate of line 55:
  \<^verbatim>\<open>tag.name in ['p', ...] and not tag.text.strip()\<close>; an empty string is false in Python.
\<close>

definition empty_structural :: "node \<Rightarrow> bool" where
  "empty_structural tag \<longleftrightarrow> tag_name tag \<in> set structural_tags \<and> strip (tag_text tag) = []"

text \<open>
  \<^verbatim>\<open>validate_story\<close> returns the pair \<^verbatim>\<open>(is_valid, message)\<close>. The messages are the
  f-strings of lines 51 and 56 (39 is the apostrophe). A non-empty result list of
  \<^verbatim>\<open>find_all\<close> is true in Python.
\<close>

definition validate_story :: "(pystr \<Rightarrow> soup) \<Rightarrow> pystr \<Rightarrow> pystr \<Rightarrow> bool \<times> pystr" where
  "validate_story parser chapter_title html_content =
     (if length html_content < 100
      then (False, py ''Chapter '' @ [39] @ chapter_title @ [39] @ py '' is too short.'')
      else if find_all (parser html_content) empty_structural \<noteq> []
      then (False, py ''Chapter '' @ [39] @ chapter_title @ [39] @ py '' contains empty tags.'')
      else (True, []))"

subsection \<open>Submissions, deduplication and ordering (lines 84-96)\<close>

text \<open>
  The fields of a Reddit submission that the program reads. \<^verbatim>\<open>created_utc\<close> is a
  Python float; the program only compares it, and finite floats are rational numbers, so it
  is a \<^typ>\<open>rat\<close> here. \<^verbatim>\<open>selftext_html\<close> is the body of a text post, a string, or
  \<^verbatim>\<open>None\<close> when the post has no text (a link post, a text post with an empty body).
\<close>

record submission =
  title :: pystr
  created_utc :: rat
  selftext_html :: "pystr option"

text \<open>
  \<^verbatim>\<open>chapter_submissions\<close> is a Python dict keyed by title. A dict keeps its keys in the
  order of first insertion and an assignment to an existing key keeps the key's position,
  which is what \<^const>\<open>AList.update\<close> does on an association list; \<^const>\<open>map_of\<close> is lookup.
  \<open>collect_step\<close> is the body of the loop of lines 87-93.
\<close>

type_synonym chapter_dict = "(pystr \<times> submission) list"

definition collect_step :: "chapter_dict \<Rightarrow> submission \<Rightarrow> chapter_dict" where
  "collect_step chapter_submissions submission =
     (case map_of chapter_submissions (title submission) of
        Some stored \<Rightarrow>
          if created_utc submission > created_utc stored
          then AList.update (title submission) submission chapter_submissions
          else chapter_submissions
      | None \<Rightarrow> AList.update (title submission) submission chapter_submissions)"

definition collect_chapters :: "submission list \<Rightarrow> chapter_dict" where
  "collect_chapters fetched = foldl collect_step [] fetched"

text \<open>\<^verbatim>\<open>chapter_submissions.values()\<close>, in the dict's order.\<close>

definition chapter_values :: "submission list \<Rightarrow> submission list" where
  "chapter_values fetched = map snd (collect_chapters fetched)"

text \<open>
  Line 96: \<^verbatim>\<open>sorted(chapter_submissions.values(), key=lambda x: x.created_utc)\<close>. Python's
  \<^verbatim>\<open>sorted\<close> is stable, and so is \<^const>\<open>sort_key\<close>.
\<close>

definition sorted_submissions :: "submission list \<Rightarrow> submission list" where
  "sorted_submissions fetched = sort_key created_utc (chapter_values fetched)"

subsection \<open>Assembling the book (lines 76-82 and 99-118)\<close>

text \<open>
  An \<^verbatim>\<open>EpubHtml\<close> chapter, the entries of the spine (the string \<^verbatim>\<open>'nav'\<close> or a
  chapter) and the \<^verbatim>\<open>EpubBook\<close> as far as the program sets it.
\<close>

record epub_html =
  chapter_title :: pystr
  file_name :: pystr
  content :: pystr

datatype spine_item = Nav | Chap epub_html

record book =
  book_title :: pystr
  language :: pystr
  authors :: "pystr list"
  items :: "epub_html list"
  toc :: "epub_html list"
  spine :: "spine_item list"

text \<open>
  The state of the chapter loop: the items added to the book, \<^verbatim>\<open>toc\<close>, \<^verbatim>\<open>spine\<close>, and the
  messages passed to \<^verbatim>\<open>logging.error\<close>. \<open>serialise\<close> is \<^verbatim>\<open>str(soup)\<close>, the library's
  re-serialisation of the parsed tree, a parameter like the parser.
\<close>

record assembly =
  added :: "epub_html list"
  toc_acc :: "epub_html list"
  spine_acc :: "spine_item list"
  logged :: "pystr list"

text \<open>Lines 108-111, for a chapter title and a body that passed validation.\<close>

definition make_chapter ::
  "(pystr \<Rightarrow> soup) \<Rightarrow> (soup \<Rightarrow> pystr) \<Rightarrow> pystr \<Rightarrow> pystr \<Rightarrow> epub_html" where
  "make_chapter parser serialise ch_title html_content =
     \<lparr>chapter_title = ch_title,
      file_name = sanitize_title ch_title @ py ''.xhtml'',
      content = serialise (parser html_content)\<rparr>"

text \<open>
  The body of the loop of lines 99-115. When \<^verbatim>\<open>selftext_html\<close> is \<^verbatim>\<open>None\<close>,
  \<^verbatim>\<open>len(html_content)\<close> at line 50 raises \<^verbatim>\<open>TypeError\<close>; nothing catches it before it
  leaves \<^verbatim>\<open>download_stories\<close>.
\<close>

definition process_chapter ::
  "(pystr \<Rightarrow> soup) \<Rightarrow> (soup \<Rightarrow> pystr) \<Rightarrow> assembly \<Rightarrow> submission \<Rightarrow> exn + assembly" where
  "process_chapter parser serialise st submission =
     (case selftext_html submission of
        None \<Rightarrow> Inl TypeError
      | Some html_content \<Rightarrow>
          (case validate_story parser (title submission) html_content of
             (is_valid, validation_message) \<Rightarrow>
               if \<not> is_valid then Inr (st\<lparr>logged := logged st @ [validation_message]\<rparr>)
               else
                 let chap = make_chapter parser serialise (title submission) html_content
                 in Inr (st\<lparr>added := added st @ [chap],
                            toc_acc := toc_acc st @ [chap],
                            spine_acc := spine_acc st @ [Chap chap]\<rparr>)))"

text \<open>
  The loop: it returns the exception that ended it, if any, and the state it had reached
  (the errors logged before an exception have been logged).
\<close>

fun chapter_loop ::
  "(pystr \<Rightarrow> soup) \<Rightarrow> (soup \<Rightarrow> pystr) \<Rightarrow> assembly \<Rightarrow> submission list \<Rightarrow> exn option \<times> assembly" where
  "chapter_loop parser serialise st [] = (None, st)"
| "chapter_loop parser serialise st (submission # rest) =
     (case process_chapter parser serialise st submission of
        Inl e \<Rightarrow> (Some e, st)
      | Inr st1 \<Rightarrow> chapter_loop parser serialise st1 rest)"

definition process_chapters ::
  "(pystr \<Rightarrow> soup) \<Rightarrow> (soup \<Rightarrow> pystr) \<Rightarrow> submission list \<Rightarrow> exn option \<times> assembly" where
  "process_chapters parser serialise subs =
     chapter_loop parser serialise
       \<lparr>added = [], toc_acc = [], spine_acc = [Nav], logged = []\<rparr> subs"

text \<open>The book as it is when the loop has ended (lines 76-79, 112, 117-118).\<close>

definition assemble :: "pystr \<Rightarrow> pystr \<Rightarrow> assembly \<Rightarrow> book" where
  "assemble author story st =
     \<lparr>book_title = story, language = py ''en'', authors = [author],
      items = added st, toc = toc_acc st, spine = spine_acc st\<rparr>"

subsection \<open>External calls, traces and the environment\<close>

text \<open>
  Everything the program does to the outside world is a call recorded in a trace, with the
  exception it raised, if any: directory creation, the fetch of \<^verbatim>\<open>get_chapters\<close> (lines
  61-64, a query of the Reddit API), \<^verbatim>\<open>logging.error\<close>, \<^verbatim>\<open>epub.write_epub\<close>, one mail
  session of the body of \<^verbatim>\<open>send_email\<close> (lines 164-187), the sleep between two attempts
  of a retried function, \<^verbatim>\<open>os.remove\<close>, \<^verbatim>\<open>log_email_sent\<close> (lines 141-151), and
  the two queries of \<^verbatim>\<open>clean_old_logs\<close>, \<^verbatim>\<open>os.path.getctime\<close> and \<^verbatim>\<open>os.path.getsize\<close>.
\<close>

record message =
  msg_from :: pystr
  msg_to :: pystr
  msg_subject :: pystr
  attachment :: "pystr option"
  body_text :: "pystr option"

datatype call =
    Mkdir pystr
  | GetChapters pystr pystr
  | LogError pystr
  | WriteEpub pystr book
  | SendMail message
  | Sleep nat
  | Remove pystr
  | LogEmailSent pystr
  | GetCtime pystr
  | GetSize pystr

type_synonym event = "call \<times> exn option"

type_synonym trace = "event list"

text \<open>
  The environment of a run: the configuration (\<^verbatim>\<open>config.ini\<close>), the working directory,
  the library functions the program calls (the markup parser and serialiser, \<^verbatim>\<open>str\<close> of
  an exception), and the behaviour of the outside world, which may depend on everything
  that happened before: \<open>raises env h c\<close> is the exception that call \<open>c\<close> raises after
  trace \<open>h\<close> (\<open>None\<close> when it returns), \<open>get_chapters env h author story\<close> is the list
  that \<^verbatim>\<open>get_chapters(author, story)\<close> returns after trace \<open>h\<close>.
\<close>

record env =
  bot_enabled :: bool
  authors_stories :: "(pystr \<times> pystr list) list"
  sender :: pystr
  receiver :: pystr
  error_receiver :: pystr
  cwd :: pystr
  html_parser :: "pystr \<Rightarrow> soup"
  soup_str :: "soup \<Rightarrow> pystr"
  exn_str :: "exn \<Rightarrow> pystr"
  get_chapters :: "trace \<Rightarrow> pystr \<Rightarrow> pystr \<Rightarrow> submission list"
  raises :: "trace \<Rightarrow> call \<Rightarrow> exn option"

text \<open>
  A computation takes the trace so far and returns its result, an exception (\<open>Inl\<close>) or a
  value (\<open>Inr\<close>), with the extended trace.
\<close>

type_synonym 'a io = "trace \<Rightarrow> (exn + 'a) \<times> trace"

definition perform :: "env \<Rightarrow> call \<Rightarrow> unit io" where
  "perform env c h =
     (case raises env h c of
        None \<Rightarrow> (Inr (), h @ [(c, None)])
      | Some e \<Rightarrow> (Inl e, h @ [(c, Some e)]))"

definition fetch :: "env \<Rightarrow> pystr \<Rightarrow> pystr \<Rightarrow> submission list io" where
  "fetch env author story h =
     (case raises env h (GetChapters author story) of
        None \<Rightarrow> (Inr (get_chapters env h author story), h @ [(GetChapters author story, None)])
      | Some e \<Rightarrow> (Inl e, h @ [(GetChapters author story, Some e)]))"

text \<open>The events a computation adds to the trace.\<close>

definition new_events :: "'a io \<Rightarrow> trace \<Rightarrow> trace" where
  "new_events m h = drop (length h) (snd (m h))"

subsection \<open>The retry decorator (lines 66 and 162)\<close>

text \<open>
  \<^verbatim>\<open>@retry(stop=stop_after_attempt(3), wait=wait_exponential(multiplier=1, min=4, max=60))\<close>
  comes from the tenacity library. Its loop numbers the attempts from 1; when an attempt
  raises, it asks the stop strategy: \<^verbatim>\<open>stop_after_attempt(n)\<close> stops when the attempt
  number has reached \<open>n\<close>, and the decorator then raises \<^verbatim>\<open>RetryError\<close> around the last
  exception (\<^verbatim>\<open>reraise\<close> is not set). Otherwise it sleeps for the time the wait strategy
  gives for this attempt number and calls the function again. \<^verbatim>\<open>wait_exponential\<close>
  computes \<^verbatim>\<open>multiplier * 2 ** (attempt_number - 1)\<close> and clamps it:
  \<^verbatim>\<open>max(max(0, min), min(result, max))\<close>.
\<close>

definition stop_after_attempt :: "nat \<Rightarrow> nat \<Rightarrow> bool" where
  "stop_after_attempt max_attempt_number attempt_number \<longleftrightarrow>
     attempt_number \<ge> max_attempt_number"

definition wait_exponential :: "nat \<Rightarrow> nat \<Rightarrow> nat \<Rightarrow> nat \<Rightarrow> nat" where
  "wait_exponential multiplier mn mx attempt_number =
     max (max 0 mn) (min (multiplier * 2 ^ (attempt_number - 1)) mx)"

function retry_call :: "nat \<Rightarrow> (nat \<Rightarrow> nat) \<Rightarrow> 'a io \<Rightarrow> nat \<Rightarrow> 'a io" where
  "retry_call max_attempt_number wait fn attempt_number h =
     (case fn h of
        (Inr v, h1) \<Rightarrow> (Inr v, h1)
      | (Inl e, h1) \<Rightarrow>
          if stop_after_attempt max_attempt_number attempt_number
          then (Inl (RetryError e), h1)
          else retry_call max_attempt_number wait fn (Suc attempt_number)
                 (h1 @ [(Sleep (wait attempt_number), None)]))"
  by pat_completeness auto
termination
  by (relation "measure (\<lambda>(mx, w, fn, n, h). mx - n)")
     (auto simp: stop_after_attempt_def)

declare retry_call.simps [simp del]

definition retry :: "'a io \<Rightarrow> 'a io" where
  "retry fn = retry_call 3 (wait_exponential 1 4 60) fn 1"

subsection \<open>\<^verbatim>\<open>send_email\<close> (lines 162-187)\<close>

text \<open>
  \<^verbatim>\<open>if file_path:\<close> and \<^verbatim>\<open>if error_message:\<close> are false for \<^verbatim>\<open>None\<close> and for the empty
  string. The body of the function builds the message and runs one mail session; the
  decorated function is the retried body.
\<close>

definition truthy :: "pystr option \<Rightarrow> bool" where
  "truthy x = (case x of None \<Rightarrow> False | Some s \<Rightarrow> s \<noteq> [])"

definition compose :: "env \<Rightarrow> pystr option \<Rightarrow> pystr \<Rightarrow> pystr \<Rightarrow> pystr option \<Rightarrow> message" where
  "compose env file_path story_title receiver_email error_message =
     \<lparr>msg_from = sender env,
      msg_to = receiver_email,
      msg_subject = (if \<not> truthy error_message then story_title
                     else py ''Error: '' @ story_title),
      attachment = (if truthy file_path then file_path else None),
      body_text = (if truthy error_message then error_message else None)\<rparr>"

definition send_email_body ::
  "env \<Rightarrow> pystr option \<Rightarrow> pystr \<Rightarrow> pystr \<Rightarrow> pystr option \<Rightarrow> unit io" where
  "send_email_body env file_path story_title receiver_email error_message =
     perform env (SendMail (compose env file_path story_title receiver_email error_message))"

definition send_email ::
  "env \<Rightarrow> pystr option \<Rightarrow> pystr \<Rightarrow> pystr \<Rightarrow> pystr option \<Rightarrow> unit io" where
  "send_email env file_path story_title receiver_email error_message =
     retry (send_email_body env file_path story_title receiver_email error_message)"

subsection \<open>\<^verbatim>\<open>download_stories\<close> (lines 66-137)\<close>

text \<open>
  \<^verbatim>\<open>os.path.join\<close> of two components, as on POSIX (47 is the slash): an absolute second
  component replaces the first.
\<close>

definition path_join :: "pystr \<Rightarrow> pystr \<Rightarrow> pystr" where
  "path_join a b =
     (case b of
        [] \<Rightarrow> (if a = [] \<or> last a = 47 then a else a @ [47])
      | c # cs \<Rightarrow> if c = 47 then b else if a = [] \<or> last a = 47 then a @ b else a @ [47] @ b)"

definition story_dir :: "env \<Rightarrow> pystr \<Rightarrow> pystr" where
  "story_dir env story = path_join (cwd env) (sanitize_title story)"

definition epub_path :: "env \<Rightarrow> pystr \<Rightarrow> pystr" where
  "epub_path env story = path_join (story_dir env story) (sanitize_title story @ py ''.epub'')"

text \<open>The two accumulators of a run, \<^verbatim>\<open>summary\<close> and \<^verbatim>\<open>failed_files\<close>.\<close>

record run_state =
  summary :: "pystr list"
  failed_files :: "pystr list"

text \<open>
  The \<^verbatim>\<open>except\<close> branch of lines 129-134. An exception of the error mail itself is not
  caught and leaves \<^verbatim>\<open>download_stories\<close>.
\<close>

definition delivery_failed ::
  "env \<Rightarrow> pystr \<Rightarrow> pystr \<Rightarrow> run_state \<Rightarrow> exn \<Rightarrow> run_state io" where
  "delivery_failed env story epub rs e h =
     (let error_message =
            py ''Failed to send and delete EPUB for '' @ story @ py '': '' @ exn_str env e;
          h1 = h @ [(LogError error_message, None)]
      in case send_email env None (py ''Error - '' @ story) (error_receiver env)
                (Some error_message) h1 of
           (Inl e1, h2) \<Rightarrow> (Inl e1, h2)
         | (Inr u, h2) \<Rightarrow>
             (Inr (rs\<lparr>summary := summary rs @ [error_message],
                      failed_files := failed_files rs @ [epub]\<rparr>), h2))"

text \<open>
  The \<^verbatim>\<open>try\<close> block of lines 124-128. The success line is appended before
  \<^verbatim>\<open>log_email_sent\<close> runs, so it stays in \<^verbatim>\<open>summary\<close> when that call raises.
\<close>

definition deliver :: "env \<Rightarrow> pystr \<Rightarrow> pystr \<Rightarrow> pystr \<Rightarrow> run_state \<Rightarrow> run_state io" where
  "deliver env author story epub rs h =
     (case send_email env (Some epub) story (receiver env) None h of
        (Inl e, h1) \<Rightarrow> delivery_failed env story epub rs e h1
      | (Inr u, h1) \<Rightarrow>
          (case perform env (Remove epub) h1 of
             (Inl e, h2) \<Rightarrow> delivery_failed env story epub rs e h2
           | (Inr u, h2) \<Rightarrow>
               (let rs1 = rs\<lparr>summary := summary rs @
                            [py ''Successfully processed and sent '' @ story @ py '' by '' @ author]\<rparr>
                in case perform env (LogEmailSent story) h2 of
                     (Inl e, h3) \<Rightarrow> delivery_failed env story epub rs1 e h3
                   | (Inr u, h3) \<Rightarrow> (Inr rs1, h3))))"

text \<open>The body of the inner loop, lines 73-134, for one author and one story.\<close>

definition process_story :: "env \<Rightarrow> pystr \<Rightarrow> pystr \<Rightarrow> run_state \<Rightarrow> run_state io" where
  "process_story env author story rs h =
     (case perform env (Mkdir (story_dir env story)) h of
        (Inl e, h1) \<Rightarrow> (Inl e, h1)
      | (Inr u, h1) \<Rightarrow>
          (case fetch env author story h1 of
             (Inl e, h2) \<Rightarrow> (Inl e, h2)
           | (Inr fetched, h2) \<Rightarrow>
               (case process_chapters (html_parser env) (soup_str env)
                       (sorted_submissions fetched) of
                  (raised, st) \<Rightarrow>
                    (let h3 = h2 @ map (\<lambda>m. (LogError m, None)) (logged st)
                     in case raised of
                          Some e \<Rightarrow> (Inl e, h3)
                        | None \<Rightarrow>
                            (case perform env
                                    (WriteEpub (epub_path env story) (assemble author story st))
                                    h3 of
                               (Inl e, h4) \<Rightarrow> (Inl e, h4)
                             | (Inr u, h4) \<Rightarrow>
                                 deliver env author story (epub_path env story) rs h4)))))"

fun stories_loop :: "env \<Rightarrow> (pystr \<times> pystr) list \<Rightarrow> run_state \<Rightarrow> run_state io" where
  "stories_loop env [] rs h = (Inr rs, h)"
| "stories_loop env ((author, story) # rest) rs h =
     (case process_story env author story rs h of
        (Inl e, h1) \<Rightarrow> (Inl e, h1)
      | (Inr rs1, h1) \<Rightarrow> stories_loop env rest rs1 h1)"

text \<open>
  The two nested \<^verbatim>\<open>for\<close> loops of lines 71-72 visit the pairs of an author and one of the
  author's stories, in the order of the configuration.
\<close>

definition story_pairs :: "env \<Rightarrow> (pystr \<times> pystr) list" where
  "story_pairs env =
     concat (map (\<lambda>(author, stories). map (Pair author) stories) (authors_stories env))"

fun join :: "pystr \<Rightarrow> pystr list \<Rightarrow> pystr" where
  "join sep [] = []"
| "join sep [x] = x"
| "join sep (x # y # ys) = x @ sep @ join sep (y # ys)"

text \<open>Line 136 (10 is the newline).\<close>

definition summary_email_body :: "pystr list \<Rightarrow> pystr" where
  "summary_email_body lines = py ''Summary:'' @ [10, 10] @ join [10] lines"

definition download_stories_body :: "env \<Rightarrow> unit io" where
  "download_stories_body env h =
     (case (if bot_enabled env
            then stories_loop env (story_pairs env) \<lparr>summary = [], failed_files = []\<rparr> h
            else (Inr \<lparr>summary = [], failed_files = []\<rparr>, h)) of
        (Inl e, h1) \<Rightarrow> (Inl e, h1)
      | (Inr rs, h1) \<Rightarrow>
          send_email env None (py ''Stories Download Summary'') (error_receiver env)
            (Some (summary_email_body (summary rs))) h1)"

definition download_stories :: "env \<Rightarrow> unit io" where
  "download_stories env = retry (download_stories_body env)"

subsection \<open>\<^verbatim>\<open>job\<close> and the script (lines 189-202)\<close>

definition job :: "env \<Rightarrow> unit io" where
  "job env h =
     (case download_stories env h of
        (Inr u, h1) \<Rightarrow> (Inr (), h1)
      | (Inl e, h1) \<Rightarrow>
          send_email env None (py ''Bot Error'') (error_receiver env)
            (Some (py ''Bot encountered an error: '' @ exn_str env e))
            (h1 @ [(LogError (py ''Failed to download stories: '' @ exn_str env e), None)]))"

definition script :: "env \<Rightarrow> unit io" where
  "script env h =
     (case send_email env None (py ''Bot Started'') (error_receiver env)
             (Some (py ''The bot has started.'')) h of
        (Inl e, h1) \<Rightarrow> (Inl e, h1)
      | (Inr u, h1) \<Rightarrow> job env h1)"

subsection \<open>Log retention: \<^verbatim>\<open>clean_old_logs\<close> (lines 153-160)\<close>

text \<open>
  An entry of the log directory that \<^verbatim>\<open>glob('*.log')\<close> yields: its path, the time it was
  created, the time of its last metadata change, and its size in bytes. The listing is in
  any order. \<^verbatim>\<open>os.path.getctime\<close> depends on the platform: it is the creation time on
  Windows and the time of the last metadata change on Unix. Both it and
  \<^verbatim>\<open>os.path.getsize\<close> query the file system and may raise, as may \<^verbatim>\<open>os.remove\<close> (on an
  entry that is a directory, for one).
\<close>

record logfile =
  path :: pystr
  birth_time :: rat
  change_time :: rat
  size_bytes :: nat

datatype platform = Windows | Posix

definition ctime :: "platform \<Rightarrow> logfile \<Rightarrow> rat" where
  "ctime pf f = (case pf of Windows \<Rightarrow> birth_time f | Posix \<Rightarrow> change_time f)"

definition getctime :: "env \<Rightarrow> platform \<Rightarrow> logfile \<Rightarrow> rat io" where
  "getctime env pf f h =
     (case raises env h (GetCtime (path f)) of
        None \<Rightarrow> (Inr (ctime pf f), h @ [(GetCtime (path f), None)])
      | Some e \<Rightarrow> (Inl e, h @ [(GetCtime (path f), Some e)]))"

definition getsize :: "env \<Rightarrow> logfile \<Rightarrow> nat io" where
  "getsize env f h =
     (case raises env h (GetSize (path f)) of
        None \<Rightarrow> (Inr (size_bytes f), h @ [(GetSize (path f), None)])
      | Some e \<Rightarrow> (Inl e, h @ [(GetSize (path f), Some e)]))"

text \<open>
  Line 154: \<^verbatim>\<open>sorted(..., key=os.path.getctime)\<close> computes the key of every entry once, in
  the order of the listing, and then sorts the entries by their keys, stably.
\<close>

fun sort_keys :: "env \<Rightarrow> platform \<Rightarrow> logfile list \<Rightarrow> rat list io" where
  "sort_keys env pf [] h = (Inr [], h)"
| "sort_keys env pf (f # fs) h =
     (case getctime env pf f h of
        (Inl e, h1) \<Rightarrow> (Inl e, h1)
      | (Inr k, h1) \<Rightarrow>
          (case sort_keys env pf fs h1 of
             (Inl e, h2) \<Rightarrow> (Inl e, h2)
           | (Inr ks, h2) \<Rightarrow> (Inr (k # ks), h2)))"

definition sorted_by_ctime :: "env \<Rightarrow> platform \<Rightarrow> logfile list \<Rightarrow> logfile list io" where
  "sorted_by_ctime env pf log_dir h =
     (case sort_keys env pf log_dir h of
        (Inl e, h1) \<Rightarrow> (Inl e, h1)
      | (Inr ks, h1) \<Rightarrow> (Inr (map snd (sort_key fst (zip ks log_dir))), h1))"

text \<open>\<^verbatim>\<open>sum(os.path.getsize(f) for f in log_files)\<close>, in bytes.\<close>

fun total_size :: "env \<Rightarrow> logfile list \<Rightarrow> nat io" where
  "total_size env [] h = (Inr 0, h)"
| "total_size env (f # fs) h =
     (case getsize env f h of
        (Inl e, h1) \<Rightarrow> (Inl e, h1)
      | (Inr n, h1) \<Rightarrow>
          (case total_size env fs h1 of
             (Inl e, h2) \<Rightarrow> (Inl e, h2)
           | (Inr t, h2) \<Rightarrow> (Inr (n + t), h2)))"

text \<open>
  \<^verbatim>\<open>total_size_mb = sum(sizes) / (1024 * 1024)\<close> is a float division by a power of two:
  it is exact below \<open>2^53\<close> bytes and at least \<open>2^33\<close> above, so for a cap below \<open>2^33\<close> the
  test \<^verbatim>\<open>total_size_mb > max_size_mb\<close> is the integer comparison of \<open>over_cap\<close>.
\<close>

definition over_cap :: "nat \<Rightarrow> int \<Rightarrow> bool" where
  "over_cap tot max_size_mb \<longleftrightarrow> int tot > max_size_mb * (1024 * 1024)"

text \<open>
  The loop of lines 157-160, on \<^verbatim>\<open>log_files\<close> and the tot computed last.
  \<^verbatim>\<open>log_files.pop(0)\<close> raises \<^verbatim>\<open>IndexError\<close> on an empty list. The function returns
  nothing in the source; the model returns the \<^verbatim>\<open>log_files\<close> left when the loop ends, and
  the files removed are the \<^verbatim>\<open>os.remove\<close> calls of the trace.
\<close>

fun removal_loop :: "env \<Rightarrow> int \<Rightarrow> logfile list \<Rightarrow> nat \<Rightarrow> logfile list io" where
  "removal_loop env max_size_mb [] tot h =
     (if over_cap tot max_size_mb then (Inl IndexError, h) else (Inr [], h))"
| "removal_loop env max_size_mb (oldest_log # log_files) tot h =
     (if over_cap tot max_size_mb
      then (case perform env (Remove (path oldest_log)) h of
              (Inl e, h1) \<Rightarrow> (Inl e, h1)
            | (Inr u, h1) \<Rightarrow>
                (case total_size env log_files h1 of
                   (Inl e, h2) \<Rightarrow> (Inl e, h2)
                 | (Inr t, h2) \<Rightarrow> removal_loop env max_size_mb log_files t h2))
      else (Inr (oldest_log # log_files), h))"

definition clean_old_logs :: "env \<Rightarrow> platform \<Rightarrow> logfile list \<Rightarrow> int \<Rightarrow> logfile list io" where
  "clean_old_logs env pf log_dir max_size_mb h =
     (case sorted_by_ctime env pf log_dir h of
        (Inl e, h1) \<Rightarrow> (Inl e, h1)
      | (Inr log_files, h1) \<Rightarrow>
          (case total_size env log_files h1 of
             (Inl e, h2) \<Rightarrow> (Inl e, h2)
           | (Inr tot, h2) \<Rightarrow> removal_loop env max_size_mb log_files tot h2))"

text \<open>
  The retention step of \<^verbatim>\<open>log_email_sent\<close> (line 151), on the directory as it is after the
  append of lines 148-149: \<^verbatim>\<open>clean_old_logs(log_dir, max_size_mb=25)\<close>.
\<close>

definition log_retention :: "env \<Rightarrow> platform \<Rightarrow> logfile list \<Rightarrow> logfile list io" where
  "log_retention env pf log_dir = clean_old_logs env pf log_dir 25"

subsection \<open>Notions used to state the properties\<close>

text \<open>
  \<open>retained seen t s\<close>: among the submissions of \<open>seen\<close> titled \<open>t\<close>, in the order they
  were met, \<open>s\<close> occurs, everything met before it is strictly older and nothing met after
  it is newer.
\<close>

definition retained :: "submission list \<Rightarrow> pystr \<Rightarrow> submission \<Rightarrow> bool" where
  "retained seen t s \<longleftrightarrow>
     (\<exists>pre post. filter (\<lambda>x. title x = t) seen = pre @ s # post \<and>
        (\<forall>x \<in> set pre. created_utc x < created_utc s) \<and>
        (\<forall>x \<in> set post. created_utc x \<le> created_utc s))"

text \<open>The sleeps of a trace, in order.\<close>

fun waits :: "trace \<Rightarrow> nat list" where
  "waits [] = []"
| "waits ((Sleep n, r) # tr) = n # waits tr"
| "waits (ev # tr) = waits tr"

text \<open>
  \<open>delivered M ev\<close> counts the mail sessions of \<open>ev\<close> that sent message \<open>M\<close> and
  returned. \<open>mail_only M fn\<close>: whatever happened before, \<open>fn\<close> extends the trace by mail
  sessions for \<open>M\<close> and sleeps of 4 only, and \<open>M\<close> is delivered once when \<open>fn\<close> returns
  and not at all when it raises.
\<close>

definition delivered :: "message \<Rightarrow> trace \<Rightarrow> nat" where
  "delivered M ev = length (filter (\<lambda>e. e = (SendMail M, None)) ev)"

definition mail_only :: "message \<Rightarrow> 'a io \<Rightarrow> bool" where
  "mail_only M fn \<longleftrightarrow>
     (\<forall>h. \<exists>ev. snd (fn h) = h @ ev \<and>
        (\<forall>e \<in> set ev. fst e = SendMail M \<or> fst e = Sleep 4) \<and>
        delivered M ev = (case fst (fn h) of Inr v \<Rightarrow> 1 | Inl e \<Rightarrow> 0))"

text \<open>The size of a list of files and the cap of line 151, in bytes.\<close>

definition total_bytes :: "logfile list \<Rightarrow> nat" where
  "total_bytes fs = sum_list (map size_bytes fs)"

definition cap_bytes :: nat where
  "cap_bytes = 25 * 1024 * 1024"

text \<open>The paths that \<^verbatim>\<open>os.remove\<close> removed in a trace, in order.\<close>

fun removals :: "trace \<Rightarrow> pystr list" where
  "removals [] = []"
| "removals ((Remove p, None) # tr) = p # removals tr"
| "removals (ev # tr) = removals tr"

text \<open>
  The chapter that the loop of lines 99-115 adds for a submission: none when the
  submission has no body or fails validation.
\<close>

definition accepted_chapter ::
  "(pystr \<Rightarrow> soup) \<Rightarrow> (soup \<Rightarrow> pystr) \<Rightarrow> submission \<Rightarrow> epub_html option" where
  "accepted_chapter parser serialise submission =
     (case selftext_html submission of
        None \<Rightarrow> None
      | Some html_content \<Rightarrow>
          if fst (validate_story parser (title submission) html_content)
          then Some (make_chapter parser serialise (title submission) html_content)
          else None)"

text \<open>
  A small environment on which the model is run: one author \<^verbatim>\<open>a\<close> with one story
  \<^verbatim>\<open>S\<close>, working directory \<^verbatim>\<open>/w\<close>, a parser that reads the body as one text node, and
  the fetched submissions and the behaviour of the outside world as given.
\<close>

definition demo_env :: "bool \<Rightarrow> submission list \<Rightarrow> (trace \<Rightarrow> call \<Rightarrow> exn option) \<Rightarrow> env" where
  "demo_env enabled fetched world =
     \<lparr>bot_enabled = enabled,
      authors_stories = [(py ''a'', [py ''S''])],
      sender = py ''bot'',
      receiver = py ''reader'',
      error_receiver = py ''admin'',
      cwd = py ''/w'',
      html_parser = (\<lambda>b. [Text b]),
      soup_str = (\<lambda>sp. concat (map tag_text sp)),
      exn_str = (\<lambda>e. py ''E''),
      get_chapters = (\<lambda>h author story. fetched),
      raises = world\<rparr>"

text \<open>
  Four worlds: nothing fails; every mail session fails; mail with an attachment fails;
  \<^verbatim>\<open>os.remove\<close> fails.
\<close>

definition all_fine :: "trace \<Rightarrow> call \<Rightarrow> exn option" where
  "all_fine h c = None"

definition mail_down :: "trace \<Rightarrow> call \<Rightarrow> exn option" where
  "mail_down h c = (case c of SendMail m \<Rightarrow> Some (Error (py ''down'')) | _ \<Rightarrow> None)"

definition removal_refused :: "trace \<Rightarrow> call \<Rightarrow> exn option" where
  "removal_refused h c =
     (case c of Remove p \<Rightarrow> Some (Error (py ''is a directory'')) | _ \<Rightarrow> None)"

definition attachments_refused :: "trace \<Rightarrow> call \<Rightarrow> exn option" where
  "attachments_refused h c =
     (case c of
        SendMail m \<Rightarrow> (if attachment m \<noteq> None then Some (Error (py ''refused'')) else None)
      | _ \<Rightarrow> None)"

subsection \<open>Properties of the sanitizer and the validator\<close>

lemma all_dropWhile_iff: "(\<forall>x \<in> set (dropWhile P s). P x) \<longleftrightarrow> (\<forall>x \<in> set s. P x)"
  by (induction s) auto

lemma strip_empty_iff: "strip s = [] \<longleftrightarrow> (\<forall>c \<in> set s. isspace c)"
  by (simp add: strip_def all_dropWhile_iff)

lemma find_all_empty_iff:
  "find_all sp pred = [] \<longleftrightarrow> (\<forall>nd \<in> set sp. \<forall>tag \<in> set (descendants nd). \<not> pred tag)"
  by (auto simp: find_all_def filter_empty_conv)

text \<open>
  C7. The filename sanitizer is idempotent: the underscore is not one of the replaced
  characters, so a second pass changes nothing.
\<close>

theorem sanitize_title_idempotent:
  "sanitize_title (sanitize_title s) = sanitize_title s"
  by (simp add: sanitize_title_def unsafe_chars_def)

text \<open>
  C3. \<^verbatim>\<open>validate_story\<close> rejects every body of fewer than 100 characters as too short;
  it rejects every body in which the parser finds a paragraph or heading element (at any
  depth) whose text is empty or whitespace only, whatever the length; and it accepts, with
  the empty message, every body of at least 100 characters whose paragraph and heading
  elements all have a non-whitespace character in their text.
\<close>

theorem validate_story_decides:
  "(length html < 100 \<longrightarrow>
      validate_story parser t html =
        (False, py ''Chapter '' @ [39] @ t @ [39] @ py '' is too short.'')) \<and>
   ((\<exists>nd \<in> set (parser html). \<exists>tag \<in> set (descendants nd).
        tag_name tag \<in> set structural_tags \<and> (\<forall>c \<in> set (tag_text tag). isspace c)) \<longrightarrow>
      \<not> fst (validate_story parser t html)) \<and>
   (100 \<le> length html \<and>
    (\<forall>nd \<in> set (parser html). \<forall>tag \<in> set (descendants nd).
        tag_name tag \<in> set structural_tags \<longrightarrow> (\<exists>c \<in> set (tag_text tag). \<not> isspace c)) \<longrightarrow>
      validate_story parser t html = (True, []))"
  by (auto simp: validate_story_def find_all_empty_iff empty_structural_def strip_empty_iff)

text \<open>
  A body of 99 characters; a body of 216 characters with an empty \<^verbatim>\<open>h2\<close> element; a
  body of 111 characters with one non-empty paragraph inside a \<^verbatim>\<open>div\<close>.
\<close>

theorem validate_story_decides_witness:
  "\<not> fst (validate_story (\<lambda>b. []) (py ''Ch'') (replicate 99 120)) \<and>
   \<not> fst (validate_story (\<lambda>b. [Element (py ''h2'') [], Element (py ''p'') [Text (replicate 200 120)]])
            (py ''Ch'') (py ''<h2></h2><p>'' @ replicate 200 120 @ py ''</p>'')) \<and>
   validate_story (\<lambda>b. [Element (py ''div'') [Element (py ''p'') [Text (replicate 93 120)]]])
     (py ''Ch'') (py ''<div><p>'' @ replicate 93 120 @ py ''</p></div>'') = (True, [])"
  using validate_story_decides [where html = "replicate 99 120" and parser = "\<lambda>b. []" and t = "py ''Ch''"]
    validate_story_decides [where parser = "\<lambda>b. [Element (py ''h2'') [], Element (py ''p'') [Text (replicate 200 120)]]"
       and html = "py ''<h2></h2><p>'' @ replicate 200 120 @ py ''</p>''" and t = "py ''Ch''"]
    validate_story_decides [where html = "py ''<div><p>'' @ replicate 93 120 @ py ''</p></div>''"
       and parser = "\<lambda>b. [Element (py ''div'') [Element (py ''p'') [Text (replicate 93 120)]]]" and t = "py ''Ch''"]
  by (simp add: structural_tags_def py_def isspace_def)

subsection \<open>Deduplication and ordering\<close>

lemma retained_other: "title x \<noteq> t \<Longrightarrow> retained (seen @ [x]) t s = retained seen t s"
  by (simp add: retained_def)

lemma retained_first: "title x \<notin> title ` set seen \<Longrightarrow> retained (seen @ [x]) (title x) x"
proof -
  assume "title x \<notin> title ` set seen"
  then have "filter (\<lambda>y. title y = title x) seen = []"
    unfolding filter_empty_conv by (metis imageI)
  then have "filter (\<lambda>y. title y = title x) (seen @ [x]) = [] @ x # []" by simp
  then show ?thesis unfolding retained_def by fastforce
qed

lemma retained_newer:
  assumes "retained seen (title x) stored" and "created_utc stored < created_utc x"
  shows "retained (seen @ [x]) (title x) x"
proof -
  from assms(1) obtain pre post where
    f: "filter (\<lambda>y. title y = title x) seen = pre @ stored # post"
    and a: "\<forall>y \<in> set pre. created_utc y < created_utc stored"
    and b: "\<forall>y \<in> set post. created_utc y \<le> created_utc stored"
    unfolding retained_def by blast
  have "filter (\<lambda>y. title y = title x) (seen @ [x]) = (pre @ stored # post) @ x # []"
    using f by simp
  moreover have "\<forall>y \<in> set (pre @ stored # post). created_utc y < created_utc x"
    using a b assms(2) by fastforce
  ultimately show ?thesis unfolding retained_def by fastforce
qed

lemma retained_not_newer:
  assumes "retained seen (title x) stored" and "\<not> created_utc stored < created_utc x"
  shows "retained (seen @ [x]) (title x) stored"
proof -
  from assms(1) obtain pre post where
    f: "filter (\<lambda>y. title y = title x) seen = pre @ stored # post"
    and a: "\<forall>y \<in> set pre. created_utc y < created_utc stored"
    and b: "\<forall>y \<in> set post. created_utc y \<le> created_utc stored"
    unfolding retained_def by blast
  have "filter (\<lambda>y. title y = title x) (seen @ [x]) = pre @ stored # (post @ [x])"
    using f by simp
  moreover have "\<forall>y \<in> set (post @ [x]). created_utc y \<le> created_utc stored"
    using b assms(2) by auto
  ultimately show ?thesis using a unfolding retained_def by blast
qed

lemma collect_step_distinct: "distinct (map fst d) \<Longrightarrow> distinct (map fst (collect_step d x))"
  by (simp add: collect_step_def distinct_update split: option.splits)

lemma collect_step_keys: "fst ` set (collect_step d x) = insert (title x) (fst ` set d)"
proof (cases "map_of d (title x)")
  case None
  then show ?thesis by (simp add: collect_step_def dom_update)
next
  case (Some stored)
  then have "title x \<in> fst ` set d" by (meson domI domIff map_of_eq_None_iff option.distinct(1))
  then show ?thesis using Some by (auto simp: collect_step_def dom_update)
qed

lemma collect_step_retained:
  assumes keys: "fst ` set d = title ` set seen"
    and inv: "\<forall>t s. map_of d t = Some s \<longrightarrow> retained seen t s"
    and look: "map_of (collect_step d x) t = Some s"
  shows "retained (seen @ [x]) t s"
proof (cases "t = title x")
  case False
  then have "map_of d t = Some s"
    using look by (auto simp: collect_step_def update_Some_unfold split: option.splits if_splits)
  then show ?thesis using inv False by (simp add: retained_other)
next
  case True
  show ?thesis
  proof (cases "map_of d (title x)")
    case None
    then have "title x \<notin> title ` set seen"
      using keys by (simp add: map_of_eq_None_iff)
    moreover have "s = x"
      using look None True by (simp add: collect_step_def update_Some_unfold)
    ultimately show ?thesis using True retained_first by simp
  next
    case (Some stored)
    then have k: "retained seen (title x) stored" using inv by blast
    show ?thesis
    proof (cases "created_utc stored < created_utc x")
      case newer: True
      then have "s = x"
        using look Some True by (simp add: collect_step_def update_Some_unfold)
      then show ?thesis using True retained_newer [OF k newer] by simp
    next
      case older: False
      then have "s = stored"
        using look Some True by (simp add: collect_step_def)
      then show ?thesis using True retained_not_newer [OF k older] by simp
    qed
  qed
qed

lemma collect_chapters_inv:
  "distinct (map fst (collect_chapters subs)) \<and>
   fst ` set (collect_chapters subs) = title ` set subs \<and>
   (\<forall>t s. map_of (collect_chapters subs) t = Some s \<longrightarrow> retained subs t s)"
proof (induction subs rule: rev_induct)
  case Nil
  then show ?case by (simp add: collect_chapters_def)
next
  case (snoc x xs)
  have step: "collect_chapters (xs @ [x]) = collect_step (collect_chapters xs) x"
    by (simp add: collect_chapters_def)
  from snoc have d: "distinct (map fst (collect_chapters xs))"
    and k: "fst ` set (collect_chapters xs) = title ` set xs"
    and i: "\<forall>t s. map_of (collect_chapters xs) t = Some s \<longrightarrow> retained xs t s"
    by blast+
  have "distinct (map fst (collect_chapters (xs @ [x])))"
    unfolding step using d by (rule collect_step_distinct)
  moreover have "fst ` set (collect_chapters (xs @ [x])) = title ` set (xs @ [x])"
    unfolding step collect_step_keys k by simp
  moreover have "\<forall>t s. map_of (collect_chapters (xs @ [x])) t = Some s \<longrightarrow> retained (xs @ [x]) t s"
    unfolding step using collect_step_retained [OF k i] by blast
  ultimately show ?case by blast
qed

lemma retainedD:
  assumes "retained subs t s"
  shows "s \<in> set subs" and "title s = t"
    and "\<forall>x \<in> set subs. title x = t \<longrightarrow> created_utc x \<le> created_utc s"
proof -
  from assms obtain pre post where
    f: "filter (\<lambda>x. title x = t) subs = pre @ s # post"
    and a: "\<forall>x \<in> set pre. created_utc x < created_utc s"
    and b: "\<forall>x \<in> set post. created_utc x \<le> created_utc s"
    unfolding retained_def by blast
  have m: "s \<in> set (filter (\<lambda>x. title x = t) subs)" unfolding f by simp
  then show "s \<in> set subs" and "title s = t" by simp_all
  show "\<forall>x \<in> set subs. title x = t \<longrightarrow> created_utc x \<le> created_utc s"
  proof (intro ballI impI)
    fix x assume "x \<in> set subs" and "title x = t"
    then have "x \<in> set (filter (\<lambda>x. title x = t) subs)" by simp
    then have "x \<in> set pre \<or> x = s \<or> x \<in> set post" unfolding f by auto
    then show "created_utc x \<le> created_utc s" using a b by fastforce
  qed
qed

lemma collect_chapters_entries:
  assumes "(t, s) \<in> set (collect_chapters subs)"
  shows "retained subs t s"
proof -
  have "distinct (map fst (collect_chapters subs))"
    using collect_chapters_inv by blast
  then have "map_of (collect_chapters subs) t = Some s"
    using assms by simp
  then show ?thesis using collect_chapters_inv by blast
qed

lemma chapter_values_titles: "map title (chapter_values subs) = map fst (collect_chapters subs)"
proof -
  have "\<forall>p \<in> set (collect_chapters subs). title (snd p) = fst p"
    using collect_chapters_entries retainedD(2) by (metis prod.collapse)
  then show ?thesis by (simp add: chapter_values_def)
qed

text \<open>
  C1. After the loop of lines 87-93 the values of the dict hold exactly one submission for
  each title that was fetched: the titles of the values are pairwise distinct, they are the
  titles of the fetched submissions, and each value is a fetched submission whose creation
  timestamp is the greatest among the fetched submissions of its title. In particular, of
  two submissions with the same title and different timestamps only the later one is left.
\<close>

theorem dedup_one_per_title_newest:
  "distinct (map title (chapter_values fetched)) \<and>
   title ` set (chapter_values fetched) = title ` set fetched \<and>
   (\<forall>s \<in> set (chapter_values fetched).
      s \<in> set fetched \<and>
      (\<forall>x \<in> set fetched. title x = title s \<longrightarrow> created_utc x \<le> created_utc s))"
proof -
  have 1: "distinct (map title (chapter_values fetched))"
    unfolding chapter_values_titles using collect_chapters_inv by blast
  have "title ` set (chapter_values fetched) = set (map title (chapter_values fetched))"
    by simp
  also have "\<dots> = fst ` set (collect_chapters fetched)"
    unfolding chapter_values_titles by simp
  also have "\<dots> = title ` set fetched" using collect_chapters_inv by blast
  finally have 2: "title ` set (chapter_values fetched) = title ` set fetched" .
  have 3: "s \<in> set fetched \<and>
      (\<forall>x \<in> set fetched. title x = title s \<longrightarrow> created_utc x \<le> created_utc s)"
    if "s \<in> set (chapter_values fetched)" for s
  proof -
    from that obtain t where "(t, s) \<in> set (collect_chapters fetched)"
      by (auto simp: chapter_values_def)
    then have r: "retained fetched t s" by (rule collect_chapters_entries)
    show ?thesis using retainedD [OF r] by simp
  qed
  show ?thesis using 1 2 3 by blast
qed

theorem dedup_one_per_title_newest_witness:
  "chapter_values
     [\<lparr>title = py ''Chapter 1'', created_utc = 100, selftext_html = Some (py ''old'')\<rparr>,
      \<lparr>title = py ''Chapter 1'', created_utc = 150, selftext_html = Some (py ''new'')\<rparr>,
      \<lparr>title = py ''Chapter 2'', created_utc = 200, selftext_html = Some (py ''two'')\<rparr>] =
     [\<lparr>title = py ''Chapter 1'', created_utc = 150, selftext_html = Some (py ''new'')\<rparr>,
      \<lparr>title = py ''Chapter 2'', created_utc = 200, selftext_html = Some (py ''two'')\<rparr>] \<and>
   chapter_values
     [\<lparr>title = py ''Chapter 1'', created_utc = 150, selftext_html = Some (py ''new'')\<rparr>,
      \<lparr>title = py ''Chapter 1'', created_utc = 100, selftext_html = Some (py ''old'')\<rparr>] =
     [\<lparr>title = py ''Chapter 1'', created_utc = 150, selftext_html = Some (py ''new'')\<rparr>]"
  using dedup_one_per_title_newest [of
     "[\<lparr>title = py ''Chapter 1'', created_utc = 100, selftext_html = Some (py ''old'')\<rparr>,
      \<lparr>title = py ''Chapter 1'', created_utc = 150, selftext_html = Some (py ''new'')\<rparr>,
      \<lparr>title = py ''Chapter 2'', created_utc = 200, selftext_html = Some (py ''two'')\<rparr>]"]
    dedup_one_per_title_newest [of
     "[\<lparr>title = py ''Chapter 1'', created_utc = 150, selftext_html = Some (py ''new'')\<rparr>,
      \<lparr>title = py ''Chapter 1'', created_utc = 100, selftext_html = Some (py ''old'')\<rparr>]"]
  by (simp add: chapter_values_def collect_chapters_def collect_step_def py_def)

text \<open>
  C9. A stored submission is replaced only by a strictly newer one of the same title: a
  submission that is not newer than the stored one leaves the dict unchanged, two
  submissions with the same title and equal timestamps leave the first one, and in general
  every fetched submission of the same title met before the retained one is strictly older
  than it (so of the newest ones the first met is retained).
\<close>

theorem dedup_ties_keep_first:
  "(\<forall>stored. map_of d (title x) = Some stored \<and> created_utc x \<le> created_utc stored \<longrightarrow>
      collect_step d x = d) \<and>
   (title a = title b \<and> created_utc a = created_utc b \<longrightarrow>
      collect_chapters [a, b] = [(title a, a)]) \<and>
   (\<forall>(t, s) \<in> set (collect_chapters fetched).
      \<exists>pre post. filter (\<lambda>x. title x = t) fetched = pre @ s # post \<and>
        (\<forall>x \<in> set pre. created_utc x < created_utc s) \<and>
        (\<forall>x \<in> set post. created_utc x \<le> created_utc s))"
proof (intro conjI)
  show "\<forall>stored. map_of d (title x) = Some stored \<and> created_utc x \<le> created_utc stored \<longrightarrow>
      collect_step d x = d"
    by (auto simp: collect_step_def)
  show "title a = title b \<and> created_utc a = created_utc b \<longrightarrow>
      collect_chapters [a, b] = [(title a, a)]"
    by (simp add: collect_chapters_def collect_step_def)
  show "\<forall>(t, s) \<in> set (collect_chapters fetched).
      \<exists>pre post. filter (\<lambda>x. title x = t) fetched = pre @ s # post \<and>
        (\<forall>x \<in> set pre. created_utc x < created_utc s) \<and>
        (\<forall>x \<in> set post. created_utc x \<le> created_utc s)"
    using collect_chapters_entries unfolding retained_def by blast
qed

theorem dedup_ties_keep_first_witness:
  "collect_chapters
     [\<lparr>title = py ''Ch'', created_utc = 100, selftext_html = Some (py ''first'')\<rparr>,
      \<lparr>title = py ''Ch'', created_utc = 100, selftext_html = Some (py ''second'')\<rparr>] =
     [(py ''Ch'', \<lparr>title = py ''Ch'', created_utc = 100, selftext_html = Some (py ''first'')\<rparr>)]"
  using dedup_ties_keep_first [where
      a = "\<lparr>title = py ''Ch'', created_utc = 100, selftext_html = Some (py ''first'')\<rparr>" and
      b = "\<lparr>title = py ''Ch'', created_utc = 100, selftext_html = Some (py ''second'')\<rparr>" and
      d = "[(py ''Ch'', \<lparr>title = py ''Ch'', created_utc = 100, selftext_html = Some (py ''first'')\<rparr>)]" and
      x = "\<lparr>title = py ''Ch'', created_utc = 100, selftext_html = Some (py ''second'')\<rparr>" and
      fetched = "[\<lparr>title = py ''Ch'', created_utc = 100, selftext_html = Some (py ''first'')\<rparr>,
         \<lparr>title = py ''Ch'', created_utc = 100, selftext_html = Some (py ''second'')\<rparr>]"]
  by simp

subsection \<open>Retrying and \<^verbatim>\<open>send_email\<close>\<close>

lemma retry_unfold:
  "retry fn h =
     (case fn h of
        (Inr v, h1) \<Rightarrow> (Inr v, h1)
      | (Inl e1, h1) \<Rightarrow>
          (case fn (h1 @ [(Sleep 4, None)]) of
             (Inr v, h2) \<Rightarrow> (Inr v, h2)
           | (Inl e2, h2) \<Rightarrow>
               (case fn (h2 @ [(Sleep 4, None)]) of
                  (Inr v, h3) \<Rightarrow> (Inr v, h3)
                | (Inl e3, h3) \<Rightarrow> (Inl (RetryError e3), h3))))"
  unfolding retry_def
  apply (subst retry_call.simps)
  apply (subst retry_call.simps)
  apply (subst retry_call.simps)
  apply (simp add: stop_after_attempt_def wait_exponential_def split: prod.splits sum.splits)
  done

lemma wait_schedule: "map (wait_exponential 1 4 60) [1, 2, 3, 4, 5, 6, 7, 8] = [4, 4, 4, 8, 16, 32, 60, 60]"
  by (simp add: wait_exponential_def)

text \<open>
  C6, as the code has it. Every call of \<^verbatim>\<open>send_email\<close> runs one, two or three mail
  sessions with the same message and sleeps 4 time-units between two consecutive sessions
  (the exponential terms 1 and 2 lie below the minimum 4, and the cap 60 is not reached
  within three attempts). It returns as soon as a session succeeds; every session before
  the last one failed. An exception leaves \<^verbatim>\<open>send_email\<close> only after the third failed
  session, as a \<^verbatim>\<open>RetryError\<close> around the exception of that session, and no further
  session is run.
\<close>

theorem send_email_three_attempts:
  "let S = SendMail (compose env file_path story_title receiver_email error_message);
       r = send_email env file_path story_title receiver_email error_message h;
       ev = new_events (send_email env file_path story_title receiver_email error_message) h
   in snd r = h @ ev \<and>
      map fst ev \<in> {[S], [S, Sleep 4, S], [S, Sleep 4, S, Sleep 4, S]} \<and>
      (fst r = Inr () \<longleftrightarrow> snd (last ev) = None) \<and>
      (\<forall>i. Suc i < length ev \<longrightarrow> fst (ev ! i) = S \<longrightarrow> snd (ev ! i) \<noteq> None) \<and>
      (\<forall>e. fst r = Inl e \<longrightarrow>
         map fst ev = [S, Sleep 4, S, Sleep 4, S] \<and>
         (\<exists>e3. snd (last ev) = Some e3 \<and> e = RetryError e3))"
  by (auto simp: Let_def send_email_def retry_unfold send_email_body_def perform_def
        new_events_def nth_Cons' split: option.splits)

theorem send_email_three_attempts_witness:
  "send_email (demo_env True [] mail_down) None (py ''s'') (py ''r'') None [] =
     (Inl (RetryError (Error (py ''down''))),
      [(SendMail \<lparr>msg_from = py ''bot'', msg_to = py ''r'', msg_subject = py ''s'',
                  attachment = None, body_text = None\<rparr>, Some (Error (py ''down''))),
       (Sleep 4, None),
       (SendMail \<lparr>msg_from = py ''bot'', msg_to = py ''r'', msg_subject = py ''s'',
                  attachment = None, body_text = None\<rparr>, Some (Error (py ''down''))),
       (Sleep 4, None),
       (SendMail \<lparr>msg_from = py ''bot'', msg_to = py ''r'', msg_subject = py ''s'',
                  attachment = None, body_text = None\<rparr>, Some (Error (py ''down'')))])"
  using send_email_three_attempts [of "demo_env True [] mail_down" None "py ''s''" "py ''r''" None "[]"]
  by (simp add: Let_def send_email_def retry_unfold send_email_body_def perform_def
        new_events_def demo_env_def mail_down_def compose_def truthy_def)

text \<open>
  The waits of a call of \<^verbatim>\<open>send_email\<close> whose three sessions all fail are 4 and 4, not
  4 and 8.
\<close>

theorem send_email_waits_counterexample:
  "waits (new_events (send_email (demo_env True [] mail_down) None (py ''s'') (py ''r'') None) []) = [4, 4] \<and>
   waits (new_events (send_email (demo_env True [] mail_down) None (py ''s'') (py ''r'') None) []) \<noteq> [4, 8]"
  by (simp add: Let_def send_email_def retry_unfold send_email_body_def perform_def
        new_events_def demo_env_def mail_down_def compose_def truthy_def)

subsection \<open>A run with the bot disabled\<close>

lemma mail_onlyD:
  assumes "mail_only M fn"
  obtains ev where "snd (fn h) = h @ ev"
    and "\<forall>e \<in> set ev. fst e = SendMail M \<or> fst e = Sleep 4"
    and "delivered M ev = (case fst (fn h) of Inr v \<Rightarrow> 1 | Inl e \<Rightarrow> 0)"
  using assms unfolding mail_only_def by blast

lemma delivered_append [simp]: "delivered M (a @ b) = delivered M a + delivered M b"
  by (simp add: delivered_def)

lemma delivered_sleep [simp]: "delivered M ((Sleep n, r) # ev) = delivered M ev"
  by (simp add: delivered_def)

lemma delivered_Nil [simp]: "delivered M [] = 0"
  by (simp add: delivered_def)

lemma mail_only_perform: "mail_only M (perform env (SendMail M))"
  unfolding mail_only_def
proof
  fix h
  show "\<exists>ev. snd (perform env (SendMail M) h) = h @ ev \<and>
        (\<forall>e \<in> set ev. fst e = SendMail M \<or> fst e = Sleep 4) \<and>
        delivered M ev = (case fst (perform env (SendMail M) h) of Inr v \<Rightarrow> 1 | Inl e \<Rightarrow> 0)"
    by (cases "raises env h (SendMail M)") (simp_all add: perform_def delivered_def)
qed

lemma mail_only_retry:
  assumes Q: "mail_only M fn"
  shows "mail_only M (retry fn)"
  unfolding mail_only_def
proof
  fix h
  let ?goal = "\<lambda>h. \<exists>ev. snd (retry fn h) = h @ ev \<and>
        (\<forall>e \<in> set ev. fst e = SendMail M \<or> fst e = Sleep 4) \<and>
        delivered M ev = (case fst (retry fn h) of Inr v \<Rightarrow> 1 | Inl e \<Rightarrow> 0)"
  obtain ev1 where 1: "snd (fn h) = h @ ev1"
    "\<forall>e \<in> set ev1. fst e = SendMail M \<or> fst e = Sleep 4"
    "delivered M ev1 = (case fst (fn h) of Inr v \<Rightarrow> 1 | Inl e \<Rightarrow> 0)"
    using mail_onlyD [OF Q] by blast
  show "?goal h"
  proof (cases "fst (fn h)")
    case (Inr v)
    then have "retry fn h = (Inr v, h @ ev1)"
      using 1(1) by (cases "fn h") (simp add: retry_unfold)
    then show ?thesis using 1 Inr by simp
  next
    case (Inl e1)
    let ?h1 = "(h @ ev1) @ [(Sleep 4, None)]"
    have r1: "retry fn h =
       (case fn ?h1 of
             (Inr v, h2) \<Rightarrow> (Inr v, h2)
           | (Inl e2, h2) \<Rightarrow>
               (case fn (h2 @ [(Sleep 4, None)]) of
                  (Inr v, h3) \<Rightarrow> (Inr v, h3)
                | (Inl e3, h3) \<Rightarrow> (Inl (RetryError e3), h3)))"
      using 1(1) Inl by (cases "fn h") (simp add: retry_unfold)
    obtain ev2 where 2: "snd (fn ?h1) = ?h1 @ ev2"
      "\<forall>e \<in> set ev2. fst e = SendMail M \<or> fst e = Sleep 4"
      "delivered M ev2 = (case fst (fn ?h1) of Inr v \<Rightarrow> 1 | Inl e \<Rightarrow> 0)"
      using mail_onlyD [OF Q] by blast
    show ?thesis
    proof (cases "fst (fn ?h1)")
      case (Inr v)
      then have "retry fn h = (Inr v, h @ (ev1 @ [(Sleep 4, None)] @ ev2))"
        unfolding r1 using 2(1) by (cases "fn ?h1") simp
      moreover have "delivered M (ev1 @ [(Sleep 4, None)] @ ev2) = 1"
        using 1(3) 2(3) Inl Inr by simp
      moreover have "\<forall>e \<in> set (ev1 @ [(Sleep 4, None)] @ ev2). fst e = SendMail M \<or> fst e = Sleep 4"
        using 1(2) 2(2) by auto
      ultimately show ?thesis by (intro exI [of _ "ev1 @ [(Sleep 4, None)] @ ev2"]) simp
    next
      case e2: (Inl e2)
      let ?h2 = "(?h1 @ ev2) @ [(Sleep 4, None)]"
      have r2: "retry fn h =
         (case fn ?h2 of
                  (Inr v, h3) \<Rightarrow> (Inr v, h3)
                | (Inl e3, h3) \<Rightarrow> (Inl (RetryError e3), h3))"
        unfolding r1 using 2(1) e2 by (cases "fn ?h1") simp
      obtain ev3 where 3: "snd (fn ?h2) = ?h2 @ ev3"
        "\<forall>e \<in> set ev3. fst e = SendMail M \<or> fst e = Sleep 4"
        "delivered M ev3 = (case fst (fn ?h2) of Inr v \<Rightarrow> 1 | Inl e \<Rightarrow> 0)"
        using mail_onlyD [OF Q] by blast
      let ?ev = "ev1 @ [(Sleep 4, None)] @ ev2 @ [(Sleep 4, None)] @ ev3"
      have all: "\<forall>e \<in> set ?ev. fst e = SendMail M \<or> fst e = Sleep 4"
        using 1(2) 2(2) 3(2) by auto
      have d: "delivered M ?ev = delivered M ev3"
        using 1(3) 2(3) Inl e2 by simp
      show ?thesis
      proof (cases "fst (fn ?h2)")
        case (Inr v)
        then have "retry fn h = (Inr v, h @ ?ev)"
          unfolding r2 using 3(1) by (cases "fn ?h2") simp
        moreover have "delivered M ?ev = 1" unfolding d using 3(3) Inr by simp
        ultimately show ?thesis using all by (intro exI [of _ ?ev]) simp
      next
        case e3: (Inl e3)
        then have "retry fn h = (Inl (RetryError e3), h @ ?ev)"
          unfolding r2 using 3(1) by (cases "fn ?h2") simp
        moreover have "delivered M ?ev = 0" unfolding d using 3(3) e3 by simp
        ultimately show ?thesis using all by (intro exI [of _ ?ev]) simp
      qed
    qed
  qed
qed

lemma disabled_body:
  "\<not> bot_enabled env \<Longrightarrow>
   download_stories_body env =
     send_email env None (py ''Stories Download Summary'') (error_receiver env)
       (Some (summary_email_body []))"
  by (intro ext) (simp add: download_stories_body_def)

lemma summary_message:
  "compose env None (py ''Stories Download Summary'') (error_receiver env)
       (Some (summary_email_body [])) =
   \<lparr>msg_from = sender env, msg_to = error_receiver env,
    msg_subject = py ''Error: Stories Download Summary'',
    attachment = None, body_text = Some (py ''Summary:'' @ [10, 10])\<rparr>"
  by (simp add: compose_def truthy_def summary_email_body_def py_def)

text \<open>
  C8. With the flag \<^verbatim>\<open>bot_enabled\<close> off, the body of \<^verbatim>\<open>download_stories\<close> is one call
  of \<^verbatim>\<open>send_email\<close> for the summary, whose text is the heading alone with no story line.
  The whole run, retries included, adds nothing to the trace but mail sessions for that
  one message and sleeps between attempts: no directory is made, nothing is fetched, no
  e-book is written or removed, no story is mailed and no ledger line is written. When the
  run returns, the summary has been delivered exactly once; when it raises, not at all.
\<close>

theorem disabled_bot_only_summary:
  assumes "\<not> bot_enabled env"
  shows
  "let M = \<lparr>msg_from = sender env, msg_to = error_receiver env,
            msg_subject = py ''Error: Stories Download Summary'',
            attachment = None, body_text = Some (py ''Summary:'' @ [10, 10])\<rparr>;
       ev = new_events (download_stories env) h
   in download_stories_body env h =
        send_email env None (py ''Stories Download Summary'') (error_receiver env)
          (Some (summary_email_body [])) h \<and>
      summary_email_body [] = py ''Summary:'' @ [10, 10] \<and>
      snd (download_stories env h) = h @ ev \<and>
      (\<forall>e \<in> set ev. fst e = SendMail M \<or> fst e = Sleep 4) \<and>
      (fst (download_stories env h) = Inr () \<longrightarrow>
         length (filter (\<lambda>e. e = (SendMail M, None)) ev) = 1) \<and>
      (fst (download_stories env h) \<noteq> Inr () \<longrightarrow>
         filter (\<lambda>e. e = (SendMail M, None)) ev = [])"
proof -
  let ?M = "\<lparr>msg_from = sender env, msg_to = error_receiver env,
            msg_subject = py ''Error: Stories Download Summary'',
            attachment = None, body_text = Some (py ''Summary:'' @ [10, 10])\<rparr>"
  have "mail_only ?M (perform env (SendMail ?M))" by (rule mail_only_perform)
  then have "mail_only ?M (send_email env None (py ''Stories Download Summary'')
       (error_receiver env) (Some (summary_email_body [])))"
    unfolding send_email_def send_email_body_def summary_message by (rule mail_only_retry)
  then have "mail_only ?M (download_stories env)"
    unfolding download_stories_def disabled_body [OF assms] by (rule mail_only_retry)
  then obtain ev where ev: "snd (download_stories env h) = h @ ev"
    "\<forall>e \<in> set ev. fst e = SendMail ?M \<or> fst e = Sleep 4"
    "delivered ?M ev = (case fst (download_stories env h) of Inr v \<Rightarrow> 1 | Inl e \<Rightarrow> 0)"
    by (rule mail_onlyD)
  have n: "new_events (download_stories env) h = ev"
    by (simp add: new_events_def ev(1))
  have one: "fst (download_stories env h) = Inr () \<longrightarrow>
      length (filter (\<lambda>e. e = (SendMail ?M, None)) ev) = 1"
    using ev(3) by (simp add: delivered_def)
  have none: "fst (download_stories env h) \<noteq> Inr () \<longrightarrow>
      filter (\<lambda>e. e = (SendMail ?M, None)) ev = []"
    using ev(3) by (cases "fst (download_stories env h)") (simp_all add: delivered_def)
  have body: "summary_email_body [] = py ''Summary:'' @ [10, 10]"
    by (simp add: summary_email_body_def)
  show ?thesis
    unfolding Let_def n using ev(1,2) one none body disabled_body [OF assms] by simp
qed

theorem disabled_bot_only_summary_witness:
  "\<not> bot_enabled (demo_env False [] all_fine) \<and>
   download_stories (demo_env False [] all_fine) [] =
     (Inr (), [(SendMail \<lparr>msg_from = py ''bot'', msg_to = py ''admin'',
                  msg_subject = py ''Error: Stories Download Summary'',
                  attachment = None, body_text = Some (py ''Summary:'' @ [10, 10])\<rparr>, None)])"
  using disabled_bot_only_summary [of "demo_env False [] all_fine" "[]"]
  by (simp add: download_stories_def retry_unfold download_stories_body_def send_email_def
        send_email_body_def perform_def compose_def truthy_def summary_email_body_def
        demo_env_def all_fine_def py_def)

subsection \<open>Assembly\<close>

lemma chapter_loop_prefix:
  "\<exists>processed rest msgs.
     subs = processed @ rest \<and>
     snd (chapter_loop parser serialise st subs) =
       st\<lparr>added := added st @ List.map_filter (accepted_chapter parser serialise) processed,
          toc_acc := toc_acc st @ List.map_filter (accepted_chapter parser serialise) processed,
          spine_acc := spine_acc st @
             map Chap (List.map_filter (accepted_chapter parser serialise) processed),
          logged := logged st @ msgs\<rparr> \<and>
     (case fst (chapter_loop parser serialise st subs) of
        None \<Rightarrow> rest = []
      | Some e \<Rightarrow> e = TypeError \<and> (\<exists>x xs. rest = x # xs \<and> selftext_html x = None))"
proof (induction subs arbitrary: st)
  case Nil
  show ?case
    by (rule exI [of _ "[]"], rule exI [of _ "[]"], rule exI [of _ "[]"])
       (simp add: List.map_filter_simps)
next
  case (Cons x xs)
  show ?case
  proof (cases "selftext_html x")
    case None
    then have "chapter_loop parser serialise st (x # xs) = (Some TypeError, st)"
      by (simp add: process_chapter_def)
    then show ?thesis using None
      by (intro exI [of _ "[]"] exI [of _ "x # xs"]) (simp add: List.map_filter_simps)
  next
    case (Some html)
    obtain ok msg where v: "validate_story parser (title x) html = (ok, msg)"
      by (cases "validate_story parser (title x) html")
    show ?thesis
    proof (cases ok)
      case False
      let ?st1 = "st\<lparr>logged := logged st @ [msg]\<rparr>"
      have step: "chapter_loop parser serialise st (x # xs) = chapter_loop parser serialise ?st1 xs"
        using Some v False by (simp add: process_chapter_def)
      have acc: "accepted_chapter parser serialise x = None"
        using Some v False by (simp add: accepted_chapter_def)
      from Cons [of ?st1] obtain processed rest msgs where
        ih: "xs = processed @ rest"
          "snd (chapter_loop parser serialise ?st1 xs) =
             ?st1\<lparr>added := added ?st1 @ List.map_filter (accepted_chapter parser serialise) processed,
                toc_acc := toc_acc ?st1 @ List.map_filter (accepted_chapter parser serialise) processed,
                spine_acc := spine_acc ?st1 @
                   map Chap (List.map_filter (accepted_chapter parser serialise) processed),
                logged := logged ?st1 @ msgs\<rparr>"
          "(case fst (chapter_loop parser serialise ?st1 xs) of
              None \<Rightarrow> rest = []
            | Some e \<Rightarrow> e = TypeError \<and> (\<exists>x xs. rest = x # xs \<and> selftext_html x = None))"
        by blast
      show ?thesis
        unfolding step
        using ih acc
        by (intro exI [of _ "x # processed"] exI [of _ rest] exI [of _ "msg # msgs"])
           (simp add: List.map_filter_simps)
    next
      case True
      let ?c = "make_chapter parser serialise (title x) html"
      let ?st1 = "st\<lparr>added := added st @ [?c], toc_acc := toc_acc st @ [?c],
                     spine_acc := spine_acc st @ [Chap ?c]\<rparr>"
      have step: "chapter_loop parser serialise st (x # xs) = chapter_loop parser serialise ?st1 xs"
        using Some v True by (simp add: process_chapter_def Let_def)
      have acc: "accepted_chapter parser serialise x = Some ?c"
        using Some v True by (simp add: accepted_chapter_def)
      from Cons [of ?st1] obtain processed rest msgs where
        ih: "xs = processed @ rest"
          "snd (chapter_loop parser serialise ?st1 xs) =
             ?st1\<lparr>added := added ?st1 @ List.map_filter (accepted_chapter parser serialise) processed,
                toc_acc := toc_acc ?st1 @ List.map_filter (accepted_chapter parser serialise) processed,
                spine_acc := spine_acc ?st1 @
                   map Chap (List.map_filter (accepted_chapter parser serialise) processed),
                logged := logged ?st1 @ msgs\<rparr>"
          "(case fst (chapter_loop parser serialise ?st1 xs) of
              None \<Rightarrow> rest = []
            | Some e \<Rightarrow> e = TypeError \<and> (\<exists>x xs. rest = x # xs \<and> selftext_html x = None))"
        by blast
      show ?thesis
        unfolding step
        using ih acc
        by (intro exI [of _ "x # processed"] exI [of _ rest] exI [of _ msgs])
           (simp add: List.map_filter_simps)
    qed
  qed
qed


text \<open>
  C2. The sequence that the chapter loop goes through holds exactly the deduplicated
  submissions, each as often as the dict holds it, in ascending order of creation
  timestamp. The loop works through a prefix of that sequence, all of it when it ends
  without an exception; the table of contents and the spine (after \<^verbatim>\<open>'nav'\<close>) hold, in
  that order, the chapters of the submissions of this prefix that were accepted, so the
  timestamps of the chapters of the book are non-decreasing from each one to the next.
\<close>

theorem chapters_ascending:
  "mset (sorted_submissions fetched) = mset (chapter_values fetched) \<and>
   sorted (map created_utc (sorted_submissions fetched)) \<and>
   (\<exists>processed rest.
      sorted_submissions fetched = processed @ rest \<and>
      (fst (process_chapters parser serialise (sorted_submissions fetched)) = None \<longrightarrow> rest = []) \<and>
      toc_acc (snd (process_chapters parser serialise (sorted_submissions fetched))) =
        List.map_filter (accepted_chapter parser serialise) processed \<and>
      spine_acc (snd (process_chapters parser serialise (sorted_submissions fetched))) =
        Nav # map Chap (List.map_filter (accepted_chapter parser serialise) processed) \<and>
      sorted (map created_utc
        (filter (\<lambda>x. accepted_chapter parser serialise x \<noteq> None) processed)))"
proof -
  let ?st = "\<lparr>added = [], toc_acc = [], spine_acc = [Nav], logged = []\<rparr>"
  have 1: "mset (sorted_submissions fetched) = mset (chapter_values fetched)"
    by (simp add: sorted_submissions_def)
  have 2: "sorted (map created_utc (sorted_submissions fetched))"
    by (simp add: sorted_submissions_def)
  obtain processed rest msgs where
    p: "sorted_submissions fetched = processed @ rest"
      "snd (chapter_loop parser serialise ?st (sorted_submissions fetched)) =
         ?st\<lparr>added := added ?st @ List.map_filter (accepted_chapter parser serialise) processed,
            toc_acc := toc_acc ?st @ List.map_filter (accepted_chapter parser serialise) processed,
            spine_acc := spine_acc ?st @
               map Chap (List.map_filter (accepted_chapter parser serialise) processed),
            logged := logged ?st @ msgs\<rparr>"
      "(case fst (chapter_loop parser serialise ?st (sorted_submissions fetched)) of
          None \<Rightarrow> rest = []
        | Some e \<Rightarrow> e = TypeError \<and> (\<exists>x xs. rest = x # xs \<and> selftext_html x = None))"
    using chapter_loop_prefix [of "sorted_submissions fetched" parser serialise ?st] by blast
  have "sorted (map created_utc processed)"
    using 2 unfolding p(1) by (simp add: sorted_append)
  then have 3: "sorted (map created_utc
        (filter (\<lambda>x. accepted_chapter parser serialise x \<noteq> None) processed))"
    by (rule sorted_filter)
  have 4: "fst (process_chapters parser serialise (sorted_submissions fetched)) = None \<longrightarrow> rest = []"
    using p(3) by (auto simp: process_chapters_def split: option.splits)
  show ?thesis
    using 1 2 3 4 p(1,2) unfolding process_chapters_def
    by (intro conjI exI [of _ processed] exI [of _ rest]) simp_all
qed

theorem chapters_ascending_witness:
  "sorted_submissions
     [\<lparr>title = py ''B'', created_utc = 200, selftext_html = Some (replicate 100 120)\<rparr>,
      \<lparr>title = py ''A'', created_utc = 100, selftext_html = Some (py ''short'')\<rparr>] =
     [\<lparr>title = py ''A'', created_utc = 100, selftext_html = Some (py ''short'')\<rparr>,
      \<lparr>title = py ''B'', created_utc = 200, selftext_html = Some (replicate 100 120)\<rparr>] \<and>
   process_chapters (\<lambda>b. [Text b]) (\<lambda>sp. concat (map tag_text sp))
     (sorted_submissions
        [\<lparr>title = py ''B'', created_utc = 200, selftext_html = Some (replicate 100 120)\<rparr>,
         \<lparr>title = py ''A'', created_utc = 100, selftext_html = Some (py ''short'')\<rparr>]) =
     (None,
      \<lparr>added = [\<lparr>chapter_title = py ''B'', file_name = py ''B.xhtml'',
                   content = replicate 100 120\<rparr>],
       toc_acc = [\<lparr>chapter_title = py ''B'', file_name = py ''B.xhtml'',
                     content = replicate 100 120\<rparr>],
       spine_acc = [Nav, Chap \<lparr>chapter_title = py ''B'', file_name = py ''B.xhtml'',
                              content = replicate 100 120\<rparr>],
       logged = [py ''Chapter '' @ [39] @ py ''A'' @ [39] @ py '' is too short.'']\<rparr>)"
  using chapters_ascending [of
     "[\<lparr>title = py ''B'', created_utc = 200, selftext_html = Some (replicate 100 120)\<rparr>,
       \<lparr>title = py ''A'', created_utc = 100, selftext_html = Some (py ''short'')\<rparr>]"
     "\<lambda>b. [Text b]" "\<lambda>sp. concat (map tag_text sp)"]
  by (simp add: sorted_submissions_def chapter_values_def collect_chapters_def collect_step_def
        process_chapters_def process_chapter_def validate_story_def find_all_def
        empty_structural_def make_chapter_def sanitize_title_def unsafe_chars_def
        structural_tags_def py_def Let_def)

subsection \<open>Processing one story\<close>





lemma perform_extends: "snd (perform env c h) = h @ [(c, raises env h c)]"
  by (simp add: perform_def split: option.splits)







subsection \<open>A run with a failed delivery\<close>

lemma demo_story_pairs: "story_pairs (demo_env en fs w) = [(py ''a'', py ''S'')]"
  by (simp add: story_pairs_def demo_env_def)

text \<open>
  C4. A run in which the delivery of the one story fails, because every mail with an
  attachment is refused. The loop ends with one failure line in \<^verbatim>\<open>summary\<close> and the path
  of the undelivered e-book in \<^verbatim>\<open>failed_files\<close>; the run returns, and its last call is the
  summary mail, whose text is the heading and the failure line. The path kept in
  \<^verbatim>\<open>failed_files\<close> does not occur in that text: line 136 builds the text from
  \<^verbatim>\<open>summary\<close> alone and \<^verbatim>\<open>failed_files\<close> is never read.
\<close>

theorem failed_files_dropped_from_summary:
  "stories_loop (demo_env True [] attachments_refused)
       (story_pairs (demo_env True [] attachments_refused))
       \<lparr>summary = [], failed_files = []\<rparr> [] =
     (Inr \<lparr>summary = [py ''Failed to send and delete EPUB for S: E''],
           failed_files = [py ''/w/S/S.epub'']\<rparr>,
      [(Mkdir (py ''/w/S''), None),
       (GetChapters (py ''a'') (py ''S''), None),
       (WriteEpub (py ''/w/S/S.epub'')
          \<lparr>book_title = py ''S'', language = py ''en'', authors = [py ''a''],
           items = [], toc = [], spine = [Nav]\<rparr>, None),
       (SendMail \<lparr>msg_from = py ''bot'', msg_to = py ''reader'', msg_subject = py ''S'',
                  attachment = Some (py ''/w/S/S.epub''), body_text = None\<rparr>,
        Some (Error (py ''refused''))),
       (Sleep 4, None),
       (SendMail \<lparr>msg_from = py ''bot'', msg_to = py ''reader'', msg_subject = py ''S'',
                  attachment = Some (py ''/w/S/S.epub''), body_text = None\<rparr>,
        Some (Error (py ''refused''))),
       (Sleep 4, None),
       (SendMail \<lparr>msg_from = py ''bot'', msg_to = py ''reader'', msg_subject = py ''S'',
                  attachment = Some (py ''/w/S/S.epub''), body_text = None\<rparr>,
        Some (Error (py ''refused''))),
       (LogError (py ''Failed to send and delete EPUB for S: E''), None),
       (SendMail \<lparr>msg_from = py ''bot'', msg_to = py ''admin'',
                  msg_subject = py ''Error: Error - S'', attachment = None,
                  body_text = Some (py ''Failed to send and delete EPUB for S: E'')\<rparr>, None)]) \<and>
   fst (download_stories_body (demo_env True [] attachments_refused) []) = Inr () \<and>
   last (snd (download_stories_body (demo_env True [] attachments_refused) [])) =
     (SendMail \<lparr>msg_from = py ''bot'', msg_to = py ''admin'',
                msg_subject = py ''Error: Stories Download Summary'', attachment = None,
                body_text = Some (py ''Summary:'' @ [10, 10] @
                                  py ''Failed to send and delete EPUB for S: E'')\<rparr>, None) \<and>
   \<not> sublist (py ''/w/S/S.epub'')
        (py ''Summary:'' @ [10, 10] @ py ''Failed to send and delete EPUB for S: E'')"
proof -
  let ?env = "demo_env True [] attachments_refused"
  have loop: "stories_loop ?env (story_pairs ?env) \<lparr>summary = [], failed_files = []\<rparr> [] =
     (Inr \<lparr>summary = [py ''Failed to send and delete EPUB for S: E''],
           failed_files = [py ''/w/S/S.epub'']\<rparr>,
      [(Mkdir (py ''/w/S''), None),
       (GetChapters (py ''a'') (py ''S''), None),
       (WriteEpub (py ''/w/S/S.epub'')
          \<lparr>book_title = py ''S'', language = py ''en'', authors = [py ''a''],
           items = [], toc = [], spine = [Nav]\<rparr>, None),
       (SendMail \<lparr>msg_from = py ''bot'', msg_to = py ''reader'', msg_subject = py ''S'',
                  attachment = Some (py ''/w/S/S.epub''), body_text = None\<rparr>,
        Some (Error (py ''refused''))),
       (Sleep 4, None),
       (SendMail \<lparr>msg_from = py ''bot'', msg_to = py ''reader'', msg_subject = py ''S'',
                  attachment = Some (py ''/w/S/S.epub''), body_text = None\<rparr>,
        Some (Error (py ''refused''))),
       (Sleep 4, None),
       (SendMail \<lparr>msg_from = py ''bot'', msg_to = py ''reader'', msg_subject = py ''S'',
                  attachment = Some (py ''/w/S/S.epub''), body_text = None\<rparr>,
        Some (Error (py ''refused''))),
       (LogError (py ''Failed to send and delete EPUB for S: E''), None),
       (SendMail \<lparr>msg_from = py ''bot'', msg_to = py ''admin'',
                  msg_subject = py ''Error: Error - S'', attachment = None,
                  body_text = Some (py ''Failed to send and delete EPUB for S: E'')\<rparr>, None)])"
    unfolding demo_story_pairs
    by (simp add: process_story_def deliver_def delivery_failed_def perform_def fetch_def Let_def
        send_email_def retry_unfold send_email_body_def compose_def truthy_def
        assemble_def process_chapters_def sorted_submissions_def chapter_values_def
        collect_chapters_def story_dir_def epub_path_def path_join_def sanitize_title_def
        unsafe_chars_def demo_env_def attachments_refused_def py_def)
  have en: "bot_enabled ?env" by (simp add: demo_env_def)
  have body: "download_stories_body ?env [] =
     send_email ?env None (py ''Stories Download Summary'') (error_receiver ?env)
       (Some (summary_email_body [py ''Failed to send and delete EPUB for S: E'']))
       (snd (stories_loop ?env (story_pairs ?env) \<lparr>summary = [], failed_files = []\<rparr> []))"
    unfolding download_stories_body_def using en by (simp add: loop)
  have 2: "fst (download_stories_body ?env []) = Inr ()"
    unfolding body loop
    by (simp add: send_email_def retry_unfold send_email_body_def perform_def compose_def
        truthy_def summary_email_body_def demo_env_def attachments_refused_def py_def)
  have 3: "last (snd (download_stories_body ?env [])) =
     (SendMail \<lparr>msg_from = py ''bot'', msg_to = py ''admin'',
                msg_subject = py ''Error: Stories Download Summary'', attachment = None,
                body_text = Some (py ''Summary:'' @ [10, 10] @
                                  py ''Failed to send and delete EPUB for S: E'')\<rparr>, None)"
    unfolding body loop
    by (simp add: send_email_def retry_unfold send_email_body_def perform_def compose_def
        truthy_def summary_email_body_def demo_env_def attachments_refused_def py_def)
  have "\<not> set (py ''/w/S/S.epub'') \<subseteq>
          set (py ''Summary:'' @ [10, 10] @ py ''Failed to send and delete EPUB for S: E'')"
    by (simp add: py_def)
  then have 4: "\<not> sublist (py ''/w/S/S.epub'')
        (py ''Summary:'' @ [10, 10] @ py ''Failed to send and delete EPUB for S: E'')"
    using set_mono_sublist by blast
  show ?thesis using loop 2 3 4 by blast
qed


subsection \<open>Log retention\<close>

lemma removals_append [simp]: "removals (a @ b) = removals a @ removals b"
  by (induction a rule: removals.induct) simp_all

lemma removals_getsize [simp]: "removals (map (\<lambda>f. (GetSize (path f), None)) fs) = []"
  by (induction fs) simp_all

lemma removals_getctime [simp]: "removals (map (\<lambda>f. (GetCtime (path f), None)) fs) = []"
  by (induction fs) simp_all

lemma sort_keys_ok:
  assumes "\<forall>h p. raises env h (GetCtime p) = None"
  shows "sort_keys env pf fs h =
     (Inr (map (ctime pf) fs), h @ map (\<lambda>f. (GetCtime (path f), None)) fs)"
  using assms by (induction fs arbitrary: h) (simp_all add: getctime_def)

lemma total_size_ok:
  assumes "\<forall>h p. raises env h (GetSize p) = None"
  shows "total_size env fs h =
     (Inr (total_bytes fs), h @ map (\<lambda>f. (GetSize (path f), None)) fs)"
  using assms by (induction fs arbitrary: h) (simp_all add: getsize_def total_bytes_def)

lemma insort_key_decorated:
  "\<forall>y \<in> set ys. fst y = k (snd y) \<Longrightarrow>
   map snd (insort_key fst (k f, f) ys) = insort_key k f (map snd ys)"
  by (induction ys) auto

lemma sort_key_decorated:
  "map snd (sort_key fst (zip (map k fs) fs)) = sort_key k fs"
proof (induction fs)
  case Nil
  then show ?case by simp
next
  case (Cons f fs)
  have "\<forall>y \<in> set (sort_key fst (zip (map k fs) fs)). fst y = k (snd y)"
    by (auto simp: set_zip)
  then show ?case using Cons by (simp add: insort_key_decorated)
qed

lemma sorted_by_ctime_ok:
  assumes "\<forall>h p. raises env h (GetCtime p) = None"
  shows "sorted_by_ctime env pf fs h =
     (Inr (sort_key (ctime pf) fs), h @ map (\<lambda>f. (GetCtime (path f), None)) fs)"
  by (simp add: sorted_by_ctime_def sort_keys_ok [OF assms] sort_key_decorated)

lemma over_cap_25: "over_cap n 25 \<longleftrightarrow> n > cap_bytes"
  by (simp add: over_cap_def cap_bytes_def)

lemma removal_loop_ok:
  assumes sz: "\<forall>h p. raises env h (GetSize p) = None"
    and rm: "\<forall>h p. raises env h (Remove p) = None"
  shows "\<exists>removed remaining ev.
      removal_loop env 25 fs (total_bytes fs) h = (Inr remaining, h @ ev) \<and>
      removals ev = map path removed \<and>
      fs = removed @ remaining \<and>
      total_bytes remaining \<le> cap_bytes \<and>
      (\<forall>k < length removed. total_bytes (drop k removed @ remaining) > cap_bytes)"
proof (induction fs arbitrary: h)
  case Nil
  show ?case
    by (rule exI [of _ "[]"], rule exI [of _ "[]"], rule exI [of _ "[]"])
       (simp add: over_cap_25 total_bytes_def cap_bytes_def)
next
  case (Cons f fs)
  show ?case
  proof (cases "total_bytes (f # fs) > cap_bytes")
    case False
    then have "removal_loop env 25 (f # fs) (total_bytes (f # fs)) h = (Inr (f # fs), h @ [])"
      by (simp add: over_cap_25)
    then show ?thesis using False
      by (intro exI [of _ "[]"] exI [of _ "f # fs"]) simp
  next
    case True
    let ?h1 = "h @ [(Remove (path f), None)]"
    let ?h2 = "?h1 @ map (\<lambda>f. (GetSize (path f), None)) fs"
    have step: "removal_loop env 25 (f # fs) (total_bytes (f # fs)) h =
        removal_loop env 25 fs (total_bytes fs) ?h2"
      using True rm by (simp add: over_cap_25 perform_def total_size_ok [OF sz])
    from Cons [of ?h2] obtain removed remaining ev where
      ih: "removal_loop env 25 fs (total_bytes fs) ?h2 = (Inr remaining, ?h2 @ ev)"
        "removals ev = map path removed"
        "fs = removed @ remaining"
        "total_bytes remaining \<le> cap_bytes"
        "\<forall>k < length removed. total_bytes (drop k removed @ remaining) > cap_bytes"
      by blast
    let ?ev = "(Remove (path f), None) # map (\<lambda>f. (GetSize (path f), None)) fs @ ev"
    have 1: "removal_loop env 25 (f # fs) (total_bytes (f # fs)) h = (Inr remaining, h @ ?ev)"
      unfolding step ih(1) by simp
    have 2: "removals ?ev = map path (f # removed)"
      using ih(2) by simp
    have 3: "\<forall>k < length (f # removed). total_bytes (drop k (f # removed) @ remaining) > cap_bytes"
    proof (intro allI impI)
      fix k assume "k < length (f # removed)"
      then show "total_bytes (drop k (f # removed) @ remaining) > cap_bytes"
        using True ih(3,5) by (cases k) auto
    qed
    show ?thesis
      using 1 2 3 ih(3,4)
      by (intro exI [of _ "f # removed"] exI [of _ remaining] exI [of _ ?ev]) simp
  qed
qed

text \<open>
  C5, as the code has it. On every directory listing on which \<^verbatim>\<open>os.path.getctime\<close>,
  \<^verbatim>\<open>os.path.getsize\<close> and \<^verbatim>\<open>os.remove\<close> return, the retention step of
  \<^verbatim>\<open>log_email_sent\<close> returns without an exception. The files it removes, in the order of
  removal, followed by the files it leaves are the listing in ascending order of
  \<^verbatim>\<open>getctime\<close>, which is the creation time on Windows and the time of the last metadata
  change on Unix: files are removed in that order and no removed file has a later
  \<^verbatim>\<open>getctime\<close> than a file that remains. The files that remain total at most 25 MiB (none
  may remain), and each removal happened while the files then present totalled more than
  25 MiB.
\<close>

theorem retention_oldest_first:
  assumes ct: "\<forall>h p. raises env h (GetCtime p) = None"
    and sz: "\<forall>h p. raises env h (GetSize p) = None"
    and rm: "\<forall>h p. raises env h (Remove p) = None"
  shows
  "\<exists>removed remaining.
      fst (log_retention env pf log_dir h) = Inr remaining \<and>
      removals (new_events (log_retention env pf log_dir) h) = map path removed \<and>
      removed @ remaining = sort_key (ctime pf) log_dir \<and>
      sorted (map (ctime pf) removed) \<and>
      (\<forall>r \<in> set removed. \<forall>k \<in> set remaining. ctime pf r \<le> ctime pf k) \<and>
      total_bytes remaining \<le> cap_bytes \<and>
      (\<forall>k < length removed. total_bytes (drop k removed @ remaining) > cap_bytes) \<and>
      ctime Windows = birth_time \<and> ctime Posix = change_time"
proof -
  let ?fs = "sort_key (ctime pf) log_dir"
  let ?h1 = "h @ map (\<lambda>f. (GetCtime (path f), None)) log_dir"
  let ?h2 = "?h1 @ map (\<lambda>f. (GetSize (path f), None)) ?fs"
  have c: "log_retention env pf log_dir h = removal_loop env 25 ?fs (total_bytes ?fs) ?h2"
    by (simp add: log_retention_def clean_old_logs_def sorted_by_ctime_ok [OF ct]
          total_size_ok [OF sz])
  obtain removed remaining ev where
    r: "removal_loop env 25 ?fs (total_bytes ?fs) ?h2 = (Inr remaining, ?h2 @ ev)"
       "removals ev = map path removed"
       "?fs = removed @ remaining"
       "total_bytes remaining \<le> cap_bytes"
       "\<forall>k < length removed. total_bytes (drop k removed @ remaining) > cap_bytes"
    using removal_loop_ok [OF sz rm, of ?fs ?h2] by blast
  have n: "new_events (log_retention env pf log_dir) h =
      map (\<lambda>f. (GetCtime (path f), None)) log_dir @
      map (\<lambda>f. (GetSize (path f), None)) ?fs @ ev"
    unfolding new_events_def c r(1) by simp
  have s: "sorted (map (ctime pf) (removed @ remaining))"
    unfolding r(3) [symmetric] by simp
  then have s1: "sorted (map (ctime pf) removed)"
    and s2: "\<forall>r \<in> set removed. \<forall>k \<in> set remaining. ctime pf r \<le> ctime pf k"
    by (auto simp: sorted_append)
  have pfs: "ctime Windows = birth_time \<and> ctime Posix = change_time"
    by (auto simp: ctime_def fun_eq_iff)
  have f: "fst (log_retention env pf log_dir h) = Inr remaining"
    unfolding c r(1) by simp
  have rem: "removals (new_events (log_retention env pf log_dir) h) = map path removed"
    unfolding n using r(2) by simp
  show ?thesis
    using f rem r(3) [symmetric] s1 s2 r(4,5) pfs
    by (intro exI [of _ removed] exI [of _ remaining]) simp
qed

text \<open>Three files of 20, 10 and 1 MiB: the oldest one is removed and 21 MiB remain.\<close>

theorem retention_oldest_first_witness:
  "(\<forall>h p. raises (demo_env True [] all_fine) h (GetCtime p) = None) \<and>
   (\<forall>h p. raises (demo_env True [] all_fine) h (GetSize p) = None) \<and>
   (\<forall>h p. raises (demo_env True [] all_fine) h (Remove p) = None) \<and>
   log_retention (demo_env True [] all_fine) Posix
     [\<lparr>path = py ''c.log'', birth_time = 3, change_time = 3, size_bytes = 20971520\<rparr>,
      \<lparr>path = py ''a.log'', birth_time = 1, change_time = 1, size_bytes = 10485760\<rparr>,
      \<lparr>path = py ''b.log'', birth_time = 2, change_time = 2, size_bytes = 1048576\<rparr>] [] =
     (Inr [\<lparr>path = py ''b.log'', birth_time = 2, change_time = 2, size_bytes = 1048576\<rparr>,
           \<lparr>path = py ''c.log'', birth_time = 3, change_time = 3, size_bytes = 20971520\<rparr>],
      [(GetCtime (py ''c.log''), None), (GetCtime (py ''a.log''), None),
       (GetCtime (py ''b.log''), None),
       (GetSize (py ''a.log''), None), (GetSize (py ''b.log''), None),
       (GetSize (py ''c.log''), None),
       (Remove (py ''a.log''), None),
       (GetSize (py ''b.log''), None), (GetSize (py ''c.log''), None)])"
  using retention_oldest_first [of "demo_env True [] all_fine" Posix
     "[\<lparr>path = py ''c.log'', birth_time = 3, change_time = 3, size_bytes = 20971520\<rparr>,
      \<lparr>path = py ''a.log'', birth_time = 1, change_time = 1, size_bytes = 10485760\<rparr>,
      \<lparr>path = py ''b.log'', birth_time = 2, change_time = 2, size_bytes = 1048576\<rparr>]" "[]"]
  by (simp add: log_retention_def clean_old_logs_def sorted_by_ctime_def getctime_def
        getsize_def perform_def over_cap_def ctime_def demo_env_def all_fine_def py_def)

text \<open>
  On Unix, an older file whose metadata changed last is kept while the file created after
  it is removed; and when \<^verbatim>\<open>os.remove\<close> raises (the entry is a directory), the step ends
  with that exception and removes nothing, with 30 MiB left.
\<close>

theorem retention_counterexample:
  "log_retention (demo_env True [] all_fine) Posix
     [\<lparr>path = py ''a.log'', birth_time = 1, change_time = 10, size_bytes = 20971520\<rparr>,
      \<lparr>path = py ''b.log'', birth_time = 2, change_time = 2, size_bytes = 10485760\<rparr>] [] =
     (Inr [\<lparr>path = py ''a.log'', birth_time = 1, change_time = 10, size_bytes = 20971520\<rparr>],
      [(GetCtime (py ''a.log''), None), (GetCtime (py ''b.log''), None),
       (GetSize (py ''b.log''), None), (GetSize (py ''a.log''), None),
       (Remove (py ''b.log''), None),
       (GetSize (py ''a.log''), None)]) \<and>
   log_retention (demo_env True [] removal_refused) Windows
     [\<lparr>path = py ''d.log'', birth_time = 1, change_time = 1, size_bytes = 31457280\<rparr>] [] =
     (Inl (Error (py ''is a directory'')),
      [(GetCtime (py ''d.log''), None), (GetSize (py ''d.log''), None),
       (Remove (py ''d.log''), Some (Error (py ''is a directory'')))])"
  by (simp add: log_retention_def clean_old_logs_def sorted_by_ctime_def getctime_def
        getsize_def perform_def over_cap_def ctime_def demo_env_def all_fine_def
        removal_refused_def py_def)

end
